theory Spec2Isabelle
  imports Main "HOL-Library.Char_ord" "HOL-Library.List_Lexorder"
begin

section \<open>Sync coordinator (class SimpleSyncManager)\<close>

text \<open>
  The coordinator is the process-wide singleton exported by the sync manager module.
  Its fields are \<^verbatim>\<open>isRunning\<close>, \<^verbatim>\<open>lastRun\<close> (milliseconds, as returned by
  \<^verbatim>\<open>Date.now()\<close>) and the constant \<^verbatim>\<open>minInterval\<close>.
\<close>

record sync_manager =
  isRunning :: bool
  lastRun :: int

definition minInterval :: int where
  "minInterval = 5 * 60 * 1000"

text \<open>The constructor: idle, never run.\<close>

definition new_manager :: sync_manager where
  "new_manager = \<lparr>isRunning = False, lastRun = 0\<rparr>"

text \<open>
  \<^verbatim>\<open>canRun()\<close> reads the clock once; the reading is the argument \<open>now\<close>. The two
  early returns keep the order of the source.
\<close>

definition canRun :: "int \<Rightarrow> sync_manager \<Rightarrow> bool" where
  "canRun now m =
     (let timeSinceLastRun = now - lastRun m in
      if isRunning m then False
      else if timeSinceLastRun < minInterval then False
      else True)"

text \<open>
  \<^verbatim>\<open>start()\<close> calls \<^verbatim>\<open>canRun()\<close> (first clock reading \<open>now1\<close>) and, when allowed,
  reads the clock a second time (\<open>now2\<close>) for \<^verbatim>\<open>lastRun\<close>. The result is the returned
  boolean together with the manager after the call.
\<close>

definition start :: "int \<Rightarrow> int \<Rightarrow> sync_manager \<Rightarrow> bool \<times> sync_manager" where
  "start now1 now2 m =
     (if \<not> canRun now1 m then (False, m)
      else (True, m\<lparr>isRunning := True, lastRun := now2\<rparr>))"

definition stop :: "sync_manager \<Rightarrow> sync_manager" where
  "stop m = m\<lparr>isRunning := False\<rparr>"

section \<open>Data model\<close>

text \<open>
  A row of the \<^verbatim>\<open>appointments\<close> table (schema.sql), with every column (\<^verbatim>\<open>id\<close> is
  \<open>appt_id\<close>, \<^verbatim>\<open>notes\<close> is \<open>appt_notes\<close>). Nullable
  columns are options; \<^verbatim>\<open>created_at\<close> and \<^verbatim>\<open>updated_at\<close> are the text SQLite stores.
\<close>

record appointment =
  appt_id :: nat
  patient_phone :: string
  patient_name :: "string option"
  appointment_date :: string
  appointment_time :: string
  duration_minutes :: "int option"
  status :: "string option"
  google_event_id :: "string option"
  created_at :: string
  updated_at :: string
  appt_notes :: "string option"

record patient =
  p_phone :: string
  p_name :: "string option"

text \<open>An event as \<^verbatim>\<open>getUpcomingAppointments\<close> returns it.\<close>

record cal_event =
  ev_id :: string
  ev_title :: "string option"
  ev_start :: string
  ev_end :: string
  ev_description :: "string option"

text \<open>The argument object of \<^verbatim>\<open>createAppointment\<close> and \<^verbatim>\<open>updateAppointment\<close>.\<close>

record appointmentData =
  patientName :: string
  patientPhone :: string
  date :: string
  time :: string
  duration :: "int option"

text \<open>
  The argument object of \<^verbatim>\<open>createEvent\<close>. The two \<^verbatim>\<open>dateTime\<close> strings are the
  formatted instants; the instants themselves are kept (\<open>None\<close> for an invalid moment).
\<close>

record eventDetails =
  summary :: string
  description :: string
  start_dateTime :: "int option"
  end_dateTime :: "int option"

datatype gw_call =
    Authenticate
  | GetUpcomingAppointments nat
  | CreateAppointment appointmentData
  | CreateEvent eventDetails
  | UpdateAppointment string appointmentData
  | CancelAppointment string

datatype error = StoreError | CalendarError | TypeError

section \<open>Environment and state\<close>

text \<open>
  Everything the code obtains from outside the process is a field of the environment:
  \<^item> \<open>clock k\<close>: the \<open>k\<close>-th reading of the system clock taken by the coordinator and
    the engine (\<^verbatim>\<open>Date.now()\<close>, \<^verbatim>\<open>moment()\<close>, \<^verbatim>\<open>new Date()\<close>), in milliseconds;
  \<^item> \<open>moment s\<close> and \<open>moment_tz s\<close>: the instant that \<^verbatim>\<open>moment(s)\<close> and
    \<^verbatim>\<open>moment.tz(s, TIMEZONE)\<close> parse from \<open>s\<close>, \<open>None\<close> for an invalid moment;
  \<^item> \<open>toISOString_daysAgo n t\<close>: the text of \<^verbatim>\<open>d.toISOString()\<close> after
    \<^verbatim>\<open>d.setDate(d.getDate() - n)\<close> on the date of reading \<open>t\<close>;
  \<^item> \<open>db_rejects k\<close>: whether the \<open>k\<close>-th statement sent to SQLite is rejected
    (constraint violations included);
  \<^item> \<open>db_datetime_now k\<close>: the value of \<^verbatim>\<open>datetime('now')\<close> in the \<open>k\<close>-th statement;
  \<^item> \<open>gw_throws k\<close>: whether the \<open>k\<close>-th invocation of a calendar gateway method throws
    (stale credentials, an event that does not exist, a transport error);
  \<^item> \<open>gw_events k\<close>: the listing the provider returns to the \<open>k\<close>-th invocation;
  \<^item> \<open>gw_new_id k\<close>: the event id the provider assigns in the \<open>k\<close>-th invocation.
\<close>

record env =
  clock :: "nat \<Rightarrow> int"
  moment :: "string \<Rightarrow> int option"
  moment_tz :: "string \<Rightarrow> int option"
  toISOString_daysAgo :: "nat \<Rightarrow> int \<Rightarrow> string"
  db_rejects :: "nat \<Rightarrow> bool"
  db_datetime_now :: "nat \<Rightarrow> string"
  gw_throws :: "nat \<Rightarrow> bool"
  gw_events :: "nat \<Rightarrow> cal_event list"
  gw_new_id :: "nat \<Rightarrow> string"

text \<open>
  The state of the process and its store: the coordinator singleton, the number of
  clock readings taken, the two tables (rows in rowid order), the AUTOINCREMENT
  counter of \<^verbatim>\<open>appointments\<close>, the number of statements sent to SQLite, and the log of
  gateway invocations (oldest first).
\<close>

record world =
  manager :: sync_manager
  ticks :: nat
  appointments :: "appointment list"
  patients :: "patient list"
  sequence :: nat
  statements :: nat
  calls :: "gw_call list"

definition Date_now :: "env \<Rightarrow> world \<Rightarrow> int \<times> world" where
  "Date_now e w = (clock e (ticks w), w\<lparr>ticks := Suc (ticks w)\<rparr>)"

text \<open>
  One statement sent through \<^verbatim>\<open>db.query\<close> or \<^verbatim>\<open>db.run\<close>: the flag says whether the
  promise is rejected.
\<close>

definition db_statement :: "env \<Rightarrow> world \<Rightarrow> bool \<times> world" where
  "db_statement e w = (db_rejects e (statements w), w\<lparr>statements := Suc (statements w)\<rparr>)"

text \<open>The coordinator singleton as the engine calls it.\<close>

definition syncManager_start :: "env \<Rightarrow> world \<Rightarrow> bool \<times> world" where
  "syncManager_start e w =
     (case start (clock e (ticks w)) (clock e (Suc (ticks w))) (manager w) of
        (ok, m) \<Rightarrow> (ok, w\<lparr>manager := m, ticks := ticks w + (if ok then 2 else 1)\<rparr>))"

definition syncManager_stop :: "world \<Rightarrow> world" where
  "syncManager_stop w = w\<lparr>manager := stop (manager w)\<rparr>"

section \<open>Calendar gateway (googleCalendar.js)\<close>

text \<open>
  Every gateway method validates the credentials, sends one request and rethrows any
  failure. An invocation is logged, numbered by its position in the log, and either
  throws or returns what the provider answers.
\<close>

definition gateway :: "env \<Rightarrow> gw_call \<Rightarrow> world \<Rightarrow> nat option \<times> world" where
  "gateway e c w =
     (let k = length (calls w) in
      (if gw_throws e k then None else Some k, w\<lparr>calls := calls w @ [c]\<rparr>))"

definition authenticate :: "env \<Rightarrow> world \<Rightarrow> (error + unit) \<times> world" where
  "authenticate e w =
     (case gateway e Authenticate w of
        (None, w') \<Rightarrow> (Inl CalendarError, w')
      | (Some k, w') \<Rightarrow> (Inr (), w'))"

definition getUpcomingAppointments ::
  "env \<Rightarrow> nat \<Rightarrow> world \<Rightarrow> (error + cal_event list) \<times> world" where
  "getUpcomingAppointments e days w =
     (case gateway e (GetUpcomingAppointments days) w of
        (None, w') \<Rightarrow> (Inl CalendarError, w')
      | (Some k, w') \<Rightarrow> (Inr (gw_events e k), w'))"

definition createAppointment ::
  "env \<Rightarrow> appointmentData \<Rightarrow> world \<Rightarrow> (error + string) \<times> world" where
  "createAppointment e d w =
     (case gateway e (CreateAppointment d) w of
        (None, w') \<Rightarrow> (Inl CalendarError, w')
      | (Some k, w') \<Rightarrow> (Inr (gw_new_id e k), w'))"

definition createEvent ::
  "env \<Rightarrow> eventDetails \<Rightarrow> world \<Rightarrow> (error + string) \<times> world" where
  "createEvent e d w =
     (case gateway e (CreateEvent d) w of
        (None, w') \<Rightarrow> (Inl CalendarError, w')
      | (Some k, w') \<Rightarrow> (Inr (gw_new_id e k), w'))"

definition updateAppointment ::
  "env \<Rightarrow> string \<Rightarrow> appointmentData \<Rightarrow> world \<Rightarrow> (error + unit) \<times> world" where
  "updateAppointment e eventId d w =
     (case gateway e (UpdateAppointment eventId d) w of
        (None, w') \<Rightarrow> (Inl CalendarError, w')
      | (Some k, w') \<Rightarrow> (Inr (), w'))"

definition cancelAppointment :: "env \<Rightarrow> string \<Rightarrow> world \<Rightarrow> (error + unit) \<times> world" where
  "cancelAppointment e eventId w =
     (case gateway e (CancelAppointment eventId) w of
        (None, w') \<Rightarrow> (Inl CalendarError, w')
      | (Some k, w') \<Rightarrow> (Inr (), w'))"

section \<open>Store queries of the reconciliation engine\<close>

text \<open>
  \<^verbatim>\<open>SELECT * FROM appointments WHERE status = 'scheduled' AND google_event_id IS NOT NULL\<close>
\<close>

definition scheduled_with_event :: "appointment list \<Rightarrow> appointment list" where
  "scheduled_with_event rows =
     filter (\<lambda>a. status a = Some ''scheduled'' \<and> google_event_id a \<noteq> None) rows"

text \<open>
  \<^verbatim>\<open>SELECT * FROM appointments WHERE status = 'scheduled' AND
  (google_event_id IS NULL OR google_event_id = "")\<close>
\<close>

definition scheduled_without_event :: "appointment list \<Rightarrow> appointment list" where
  "scheduled_without_event rows =
     filter (\<lambda>a. status a = Some ''scheduled'' \<and>
                 (google_event_id a = None \<or> google_event_id a = Some [])) rows"

text \<open>\<^verbatim>\<open>SELECT * FROM patients WHERE phone = ?\<close>\<close>

definition patients_by_phone :: "string \<Rightarrow> patient list \<Rightarrow> patient list" where
  "patients_by_phone ph ps = filter (\<lambda>p. p_phone p = ph) ps"

text \<open>
  \<^verbatim>\<open>UPDATE appointments SET google_event_id = ?, updated_at = datetime("now") WHERE id = ?\<close>
\<close>

definition set_google_event_id ::
  "string \<Rightarrow> string \<Rightarrow> nat \<Rightarrow> appointment list \<Rightarrow> appointment list" where
  "set_google_event_id ev now i rows =
     map (\<lambda>a. if appt_id a = i then a\<lparr>google_event_id := Some ev, updated_at := now\<rparr> else a)
       rows"

text \<open>
  \<^verbatim>\<open>UPDATE appointments SET status = 'cancelled', updated_at = datetime("now") WHERE id = ?\<close>
\<close>

definition set_cancelled :: "string \<Rightarrow> nat \<Rightarrow> appointment list \<Rightarrow> appointment list" where
  "set_cancelled now i rows =
     map (\<lambda>a. if appt_id a = i then a\<lparr>status := Some ''cancelled'', updated_at := now\<rparr> else a)
       rows"

text \<open>\<^verbatim>\<open>UPDATE appointments SET updated_at = datetime("now") WHERE id = ?\<close>\<close>

definition set_updated_at :: "string \<Rightarrow> nat \<Rightarrow> appointment list \<Rightarrow> appointment list" where
  "set_updated_at now i rows =
     map (\<lambda>a. if appt_id a = i then a\<lparr>updated_at := now\<rparr> else a) rows"

section \<open>JavaScript values used by the engine\<close>

text \<open>
  \<^verbatim>\<open>appointment.patient_name || (patient[0]?.name) || 'Patient'\<close>, where \<^verbatim>\<open>patient\<close> is the
  result of the patients query. In a boolean position null and the empty string are
  falsy.
\<close>

definition patientName_or :: "appointment \<Rightarrow> patient list \<Rightarrow> string" where
  "patientName_or a ps =
     (case patient_name a of
        Some n \<Rightarrow> if n \<noteq> [] then n else
          (case ps of
             [] \<Rightarrow> ''Patient''
           | p # _ \<Rightarrow> (case p_name p of None \<Rightarrow> ''Patient''
                       | Some m \<Rightarrow> if m \<noteq> [] then m else ''Patient''))
      | None \<Rightarrow>
          (case ps of
             [] \<Rightarrow> ''Patient''
           | p # _ \<Rightarrow> (case p_name p of None \<Rightarrow> ''Patient''
                       | Some m \<Rightarrow> if m \<noteq> [] then m else ''Patient'')))"

text \<open>The object literal passed to \<^verbatim>\<open>createAppointment\<close> and \<^verbatim>\<open>updateAppointment\<close>.\<close>

definition appointment_payload :: "appointment \<Rightarrow> patient list \<Rightarrow> appointmentData" where
  "appointment_payload a ps =
     \<lparr>patientName = patientName_or a ps,
      patientPhone = patient_phone a,
      date = appointment_date a,
      time = appointment_time a,
      duration = duration_minutes a\<rparr>"

text \<open>The template \<^verbatim>\<open>`${appointment_date}T${appointment_time}:00`\<close>.\<close>

definition local_datetime :: "appointment \<Rightarrow> string" where
  "local_datetime a = appointment_date a @ ''T'' @ appointment_time a @ '':00''"

text \<open>
  \<^verbatim>\<open>Map.prototype.set\<close> on a map kept as an association list in iteration order: a new
  key goes to the end, an existing key keeps its place and takes the new value.
  \<^verbatim>\<open>Map.prototype.get\<close> is \<^const>\<open>map_of\<close>.
\<close>

fun map_set :: "'k \<Rightarrow> 'v \<Rightarrow> ('k \<times> 'v) list \<Rightarrow> ('k \<times> 'v) list" where
  "map_set k v [] = [(k, v)]"
| "map_set k v ((k', v') # m) =
     (if k' = k then (k, v) # m else (k', v') # map_set k v m)"

text \<open>
  \<^verbatim>\<open>a.diff(b, 'hours')\<close> of moment: the difference of the two instants in hours, truncated
  towards zero (moment's \<^verbatim>\<open>absFloor\<close>), and \<^verbatim>\<open>NaN\<close> (here \<open>None\<close>) when \<open>b\<close> is invalid.
  The first moment is \<^verbatim>\<open>moment()\<close>, always valid.
\<close>

definition absFloor_div :: "int \<Rightarrow> int \<Rightarrow> int" where
  "absFloor_div x d = (if x < 0 then - ((- x) div d) else x div d)"

definition diff_hours :: "int \<Rightarrow> int option \<Rightarrow> int option" where
  "diff_hours now that =
     (case that of None \<Rightarrow> None | Some t \<Rightarrow> Some (absFloor_div (now - t) 3600000))"

text \<open>\<^verbatim>\<open>hoursSinceCreation <= 24\<close>: a comparison with \<^verbatim>\<open>NaN\<close> is false.\<close>

definition le_number :: "int option \<Rightarrow> int \<Rightarrow> bool" where
  "le_number x n = (case x of None \<Rightarrow> False | Some v \<Rightarrow> v \<le> n)"

text \<open>
  \<^verbatim>\<open>a.isSame(b)\<close> of moment without a unit: both valid and the same millisecond.
\<close>

definition isSame :: "int option \<Rightarrow> int option \<Rightarrow> bool" where
  "isSame a b =
     (case a of None \<Rightarrow> False
      | Some x \<Rightarrow> (case b of None \<Rightarrow> False | Some y \<Rightarrow> x = y))"

section \<open>Reconciliation engine (class CalendarSyncService)\<close>

text \<open>
  The two lookup maps of \<^verbatim>\<open>syncAppointments\<close>. A row whose event id is null or empty
  is skipped by \<^verbatim>\<open>if (appointment.google_event_id)\<close>.
\<close>

definition dbAppointmentMap :: "appointment list \<Rightarrow> (string \<times> appointment) list" where
  "dbAppointmentMap dbAppointments =
     foldl (\<lambda>m a. case google_event_id a of
                     None \<Rightarrow> m
                   | Some ev \<Rightarrow> if ev \<noteq> [] then map_set ev a m else m)
       [] dbAppointments"

definition calendarEventMap :: "cal_event list \<Rightarrow> (string \<times> cal_event) list" where
  "calendarEventMap calendarEvents =
     foldl (\<lambda>m ev. map_set (ev_id ev) ev m) [] calendarEvents"

text \<open>
  The queues filled by the comparison. \<^verbatim>\<open>toDeleteInCalendar\<close>, \<^verbatim>\<open>toUpdateInDb\<close> and
  \<^verbatim>\<open>toDeleteInDb\<close> are declared by the source and never pushed to.
\<close>

record queues =
  toCreateInCalendar :: "appointment list"
  toUpdateInCalendar :: "(appointment \<times> cal_event) list"
  toDeleteInCalendar :: "string list"
  toUpdateInDb :: "appointment list"
  toDeleteInDb :: "appointment list"

definition empty_queues :: queues where
  "empty_queues =
     \<lparr>toCreateInCalendar = [], toUpdateInCalendar = [], toDeleteInCalendar = [],
      toUpdateInDb = [], toDeleteInDb = []\<rparr>"

text \<open>
  One iteration of \<^verbatim>\<open>for (const [eventId, dbAppointment] of dbAppointmentMap)\<close>. The
  missing-event branch reads the clock (\<^verbatim>\<open>moment()\<close>).
\<close>

definition check_appointment ::
  "env \<Rightarrow> (string \<times> cal_event) list \<Rightarrow> queues \<times> world \<Rightarrow> string \<times> appointment
     \<Rightarrow> queues \<times> world" where
  "check_appointment e cm qw entry =
     (case qw of (q, w) \<Rightarrow>
      (case entry of (eventId, dbAppointment) \<Rightarrow>
       (case map_of cm eventId of
          None \<Rightarrow>
            (case Date_now e w of (now, w') \<Rightarrow>
               (let hoursSinceCreation = diff_hours now (moment e (created_at dbAppointment)) in
                if le_number hoursSinceCreation 24
                then (q\<lparr>toCreateInCalendar := toCreateInCalendar q @ [dbAppointment]\<rparr>, w')
                else (q, w')))
        | Some calendarEvent \<Rightarrow>
            (let dbDateTime = moment_tz e (local_datetime dbAppointment);
                 calendarDateTime = moment e (ev_start calendarEvent) in
             if \<not> isSame dbDateTime calendarDateTime
             then (q\<lparr>toUpdateInCalendar :=
                         toUpdateInCalendar q @ [(dbAppointment, calendarEvent)]\<rparr>, w)
             else (q, w)))))"

definition find_discrepancies ::
  "env \<Rightarrow> (string \<times> appointment) list \<Rightarrow> (string \<times> cal_event) list \<Rightarrow> world
     \<Rightarrow> queues \<times> world" where
  "find_discrepancies e dm cm w = foldl (check_appointment e cm) (empty_queues, w) dm"

text \<open>
  The loops of \<^verbatim>\<open>applySyncFixes\<close>, one definition per loop body. Each body is inside
  its own \<^verbatim>\<open>try/catch\<close> that logs and goes on to the next item, so a rejected statement
  or a throwing gateway call ends the item and nothing else.
\<close>

definition recreate_event :: "env \<Rightarrow> world \<Rightarrow> appointment \<Rightarrow> world" where
  "recreate_event e w a =
     (case db_statement e w of
        (True, w1) \<Rightarrow> w1
      | (False, w1) \<Rightarrow>
          (case createAppointment e
                  (appointment_payload a (patients_by_phone (patient_phone a) (patients w1))) w1 of
             (Inl err, w2) \<Rightarrow> w2
           | (Inr eventId, w2) \<Rightarrow>
               (case db_statement e w2 of
                  (True, w3) \<Rightarrow> w3
                | (False, w3) \<Rightarrow>
                    w3\<lparr>appointments :=
                         set_google_event_id eventId (db_datetime_now e (statements w2))
                           (appt_id a) (appointments w3)\<rparr>)))"

definition update_event :: "env \<Rightarrow> world \<Rightarrow> appointment \<times> cal_event \<Rightarrow> world" where
  "update_event e w item =
     (case item of (dbAppointment, calendarEvent) \<Rightarrow>
      (case db_statement e w of
         (True, w1) \<Rightarrow> w1
       | (False, w1) \<Rightarrow>
           snd (updateAppointment e (ev_id calendarEvent)
                  (appointment_payload dbAppointment
                     (patients_by_phone (patient_phone dbAppointment) (patients w1))) w1)))"

definition delete_event :: "env \<Rightarrow> world \<Rightarrow> string \<Rightarrow> world" where
  "delete_event e w eventId = snd (cancelAppointment e eventId w)"

definition touch_record :: "env \<Rightarrow> world \<Rightarrow> appointment \<Rightarrow> world" where
  "touch_record e w a =
     (case db_statement e w of
        (True, w1) \<Rightarrow> w1
      | (False, w1) \<Rightarrow>
          w1\<lparr>appointments :=
               set_updated_at (db_datetime_now e (statements w)) (appt_id a) (appointments w1)\<rparr>)"

definition cancel_record :: "env \<Rightarrow> world \<Rightarrow> appointment \<Rightarrow> world" where
  "cancel_record e w a =
     (case db_statement e w of
        (True, w1) \<Rightarrow> w1
      | (False, w1) \<Rightarrow>
          w1\<lparr>appointments :=
               set_cancelled (db_datetime_now e (statements w)) (appt_id a) (appointments w1)\<rparr>)"

definition applySyncFixes :: "env \<Rightarrow> queues \<Rightarrow> world \<Rightarrow> world" where
  "applySyncFixes e q w =
     (let w1 = foldl (recreate_event e) w (toCreateInCalendar q);
          w2 = foldl (update_event e) w1 (toUpdateInCalendar q);
          w3 = foldl (delete_event e) w2 (toDeleteInCalendar q);
          w4 = foldl (touch_record e) w3 (toUpdateInDb q);
          w5 = foldl (cancel_record e) w4 (toDeleteInDb q)
      in w5)"

text \<open>
  \<^verbatim>\<open>syncAppointments\<close>. The \<^verbatim>\<open>finally\<close> block runs on the early return, on a normal end
  and when the store query or the listing throws (the \<^verbatim>\<open>catch\<close> block rethrows).
\<close>

definition syncAppointments :: "env \<Rightarrow> world \<Rightarrow> (error + unit) \<times> world" where
  "syncAppointments e w =
     (case syncManager_start e w of
        (False, w1) \<Rightarrow> (Inr (), syncManager_stop w1)
      | (True, w1) \<Rightarrow>
          (case db_statement e w1 of
             (True, w2) \<Rightarrow> (Inl StoreError, syncManager_stop w2)
           | (False, w2) \<Rightarrow>
               (let dbAppointments = scheduled_with_event (appointments w2) in
                case getUpcomingAppointments e 30 w2 of
                  (Inl err, w3) \<Rightarrow> (Inl err, syncManager_stop w3)
                | (Inr calendarEvents, w3) \<Rightarrow>
                    (case find_discrepancies e (dbAppointmentMap dbAppointments)
                            (calendarEventMap calendarEvents) w3 of
                       (q, w4) \<Rightarrow> (Inr (), syncManager_stop (applySyncFixes e q w4))))))"

text \<open>
  The second loop of \<^verbatim>\<open>syncAppointments\<close>, over the calendar events that no row
  references, only writes a log line; it has no counterpart in the state.
\<close>

text \<open>
  \<^verbatim>\<open>validateAppointmentData\<close>. Its loop body is the same sequence of calls as the
  recreate loop of \<^verbatim>\<open>applySyncFixes\<close>. The result of the second query (rows with a
  malformed date or time) is only logged. A rejected query is rethrown.
\<close>

definition validateAppointmentData :: "env \<Rightarrow> world \<Rightarrow> (error + unit) \<times> world" where
  "validateAppointmentData e w =
     (case db_statement e w of
        (True, w1) \<Rightarrow> (Inl StoreError, w1)
      | (False, w1) \<Rightarrow>
          (let orphanedAppointments = scheduled_without_event (appointments w1);
               w2 = foldl (recreate_event e) w1 orphanedAppointments in
           case db_statement e w2 of
             (True, w3) \<Rightarrow> (Inl StoreError, w3)
           | (False, w3) \<Rightarrow> (Inr (), w3)))"

text \<open>
  \<^verbatim>\<open>retryFailedAppointmentSyncs\<close>. \<^verbatim>\<open>appointment.patient_name || 'Patient'\<close> and
  \<^verbatim>\<open>appointment.duration_minutes || 30\<close> are written out; the outer \<^verbatim>\<open>catch\<close> swallows a
  rejected query.
\<close>

definition name_or_Patient :: "appointment \<Rightarrow> string" where
  "name_or_Patient a =
     (case patient_name a of None \<Rightarrow> ''Patient''
      | Some n \<Rightarrow> if n \<noteq> [] then n else ''Patient'')"

definition minutes_or_30 :: "appointment \<Rightarrow> int" where
  "minutes_or_30 a =
     (case duration_minutes a of None \<Rightarrow> 30 | Some d \<Rightarrow> if d \<noteq> 0 then d else 30)"

definition retry_eventDetails :: "env \<Rightarrow> appointment \<Rightarrow> eventDetails" where
  "retry_eventDetails e a =
     (let startDateTime = moment_tz e (local_datetime a);
          endDateTime = map_option (\<lambda>t. t + minutes_or_30 a * 60000) startDateTime in
      \<lparr>summary = ''Appointment - '' @ name_or_Patient a,
       description =
         ''Appointment with '' @ name_or_Patient a @ '' ('' @ patient_phone a @ '')'',
       start_dateTime = startDateTime,
       end_dateTime = endDateTime\<rparr>)"

definition retry_sync :: "env \<Rightarrow> world \<Rightarrow> appointment \<Rightarrow> world" where
  "retry_sync e w a =
     (case db_statement e w of
        (True, w1) \<Rightarrow> w1
      | (False, w1) \<Rightarrow>
          (case createEvent e (retry_eventDetails e a) w1 of
             (Inl err, w2) \<Rightarrow> w2
           | (Inr eventId, w2) \<Rightarrow>
               (case db_statement e w2 of
                  (True, w3) \<Rightarrow> w3
                | (False, w3) \<Rightarrow>
                    w3\<lparr>appointments :=
                         set_google_event_id eventId (db_datetime_now e (statements w2))
                           (appt_id a) (appointments w3)\<rparr>)))"

definition retryFailedAppointmentSyncs :: "env \<Rightarrow> world \<Rightarrow> world" where
  "retryFailedAppointmentSyncs e w =
     (case db_statement e w of
        (True, w1) \<Rightarrow> w1
      | (False, w1) \<Rightarrow>
          (let failedAppointments = scheduled_without_event (appointments w1) in
           if length failedAppointments = 0 then w1
           else foldl (retry_sync e) w1 failedAppointments))"

text \<open>
  \<^verbatim>\<open>cleanupOldData\<close>: the archiving update compares the stored text of \<^verbatim>\<open>created_at\<close>
  with the ISO text of the date thirty days back; the second statement deletes old
  conversation states, a table that is not part of the state here. Failures are logged
  and swallowed.
\<close>

definition archive_old :: "string \<Rightarrow> appointment list \<Rightarrow> appointment list" where
  "archive_old cutoff rows =
     map (\<lambda>a. if (status a = Some ''completed'' \<or> status a = Some ''cancelled'')
                  \<and> created_at a < cutoff
               then a\<lparr>status := Some ''archived''\<rparr> else a) rows"

definition cleanupOldData :: "env \<Rightarrow> world \<Rightarrow> world" where
  "cleanupOldData e w =
     (case Date_now e w of (t1, w1) \<Rightarrow>
      (case db_statement e w1 of
         (True, w2) \<Rightarrow> w2
       | (False, w2) \<Rightarrow>
           (case Date_now e
                   (w2\<lparr>appointments :=
                         archive_old (toISOString_daysAgo e 30 t1) (appointments w2)\<rparr>) of
              (t2, w3) \<Rightarrow> snd (db_statement e w3))))"

text \<open>
  \<^verbatim>\<open>performFullSync\<close>: the gate, the four stages in the order of the source, and the
  \<^verbatim>\<open>finally\<close> block on every path. An error of \<^verbatim>\<open>validateAppointmentData\<close> or
  \<^verbatim>\<open>syncAppointments\<close> is rethrown by the \<^verbatim>\<open>catch\<close> block.
\<close>

definition performFullSync :: "env \<Rightarrow> world \<Rightarrow> (error + unit) \<times> world" where
  "performFullSync e w =
     (case syncManager_start e w of
        (False, w1) \<Rightarrow> (Inr (), syncManager_stop w1)
      | (True, w1) \<Rightarrow>
          (case validateAppointmentData e w1 of
             (Inl err, w2) \<Rightarrow> (Inl err, syncManager_stop w2)
           | (Inr u, w2) \<Rightarrow>
               (case syncAppointments e w2 of
                  (Inl err, w3) \<Rightarrow> (Inl err, syncManager_stop w3)
                | (Inr u', w3) \<Rightarrow>
                    (Inr (), syncManager_stop
                               (cleanupOldData e (retryFailedAppointmentSyncs e w3))))))"

section \<open>Booking path (saveAppointment)\<close>

text \<open>The object passed to \<^verbatim>\<open>saveAppointment\<close>.\<close>

record new_appointment =
  new_patient_phone :: string
  new_patient_name :: "string option"
  new_appointment_date :: string
  new_appointment_time :: string
  new_duration_minutes :: "int option"
  new_google_event_id :: "string option"
  new_status :: "string option"

text \<open>\<^verbatim>\<open>status IN ('scheduled', 'confirmed', 'pending')\<close>\<close>

definition is_active :: "appointment \<Rightarrow> bool" where
  "is_active a =
     (status a = Some ''scheduled'' \<or> status a = Some ''confirmed''
      \<or> status a = Some ''pending'')"

text \<open>The duplicate check of \<^verbatim>\<open>saveAppointment\<close>: the rows of the first query.\<close>

definition existingAppointment :: "new_appointment \<Rightarrow> appointment list \<Rightarrow> appointment list" where
  "existingAppointment d rows =
     filter (\<lambda>a. patient_phone a = new_patient_phone d
                 \<and> appointment_date a = new_appointment_date d
                 \<and> appointment_time a = new_appointment_time d
                 \<and> is_active a) rows"

text \<open>
  The \<^verbatim>\<open>INSERT\<close>: the AUTOINCREMENT key is one more than the largest key the table has
  ever held; both timestamps are \<^verbatim>\<open>datetime('now')\<close>. The schema declares no unique
  index on the slot columns (\<^verbatim>\<open>idx_appointments_unique_slot\<close> is a plain
  \<^verbatim>\<open>CREATE INDEX\<close>), so the statement itself never refuses a second row for a slot.
\<close>

definition next_rowid :: "world \<Rightarrow> nat" where
  "next_rowid w = Suc (max (sequence w) (foldr max (map appt_id (appointments w)) 0))"

definition insert_appointment :: "new_appointment \<Rightarrow> string \<Rightarrow> world \<Rightarrow> nat \<times> world" where
  "insert_appointment d now w =
     (let i = next_rowid w in
      (i, w\<lparr>sequence := i,
            appointments := appointments w @
              [\<lparr>appt_id = i,
                patient_phone = new_patient_phone d,
                patient_name = new_patient_name d,
                appointment_date = new_appointment_date d,
                appointment_time = new_appointment_time d,
                duration_minutes = new_duration_minutes d,
                status = new_status d,
                google_event_id = new_google_event_id d,
                created_at = now,
                updated_at = now,
                appt_notes = None\<rparr>]\<rparr>))"

text \<open>
  \<^verbatim>\<open>saveAppointment\<close> is an async function with two \<^verbatim>\<open>await\<close>s: the query and the
  insert. Between them the event loop may run any other handler. A call is therefore a
  task that advances by one statement at a time: \<open>Checking\<close> before the query has run,
  \<open>Inserting\<close> after an empty answer, \<open>Returned id existed\<close> and \<open>Thrown\<close> at the end.
\<close>

datatype save_task =
    Checking new_appointment
  | Inserting new_appointment
  | Returned nat bool
  | Thrown error

definition saveAppointment_step :: "env \<Rightarrow> save_task \<Rightarrow> world \<Rightarrow> save_task \<times> world" where
  "saveAppointment_step e t w =
     (case t of
        Checking d \<Rightarrow>
          (case db_statement e w of
             (True, w1) \<Rightarrow> (Thrown StoreError, w1)
           | (False, w1) \<Rightarrow>
               (case existingAppointment d (appointments w1) of
                  [] \<Rightarrow> (Inserting d, w1)
                | a # _ \<Rightarrow> (Returned (appt_id a) True, w1)))
      | Inserting d \<Rightarrow>
          (case db_statement e w of
             (True, w1) \<Rightarrow> (Thrown StoreError, w1)
           | (False, w1) \<Rightarrow>
               (case insert_appointment d (db_datetime_now e (statements w)) w1 of
                  (i, w2) \<Rightarrow> (Returned i False, w2)))
      | Returned i b \<Rightarrow> (Returned i b, w)
      | Thrown err \<Rightarrow> (Thrown err, w))"

text \<open>One call run to its end with nothing in between.\<close>

definition saveAppointment :: "env \<Rightarrow> new_appointment \<Rightarrow> world \<Rightarrow> save_task \<times> world" where
  "saveAppointment e d w =
     (case saveAppointment_step e (Checking d) w of
        (t, w1) \<Rightarrow> saveAppointment_step e t w1)"

text \<open>
  Several calls in flight: the schedule names, statement by statement, which call the
  event loop resumes next.
\<close>

fun run_schedule :: "env \<Rightarrow> nat list \<Rightarrow> save_task list \<Rightarrow> world \<Rightarrow> save_task list \<times> world" where
  "run_schedule e [] ts w = (ts, w)"
| "run_schedule e (i # sched) ts w =
     (if i < length ts
      then (case saveAppointment_step e (ts ! i) w of
              (t', w') \<Rightarrow> run_schedule e sched (ts[i := t']) w')
      else run_schedule e sched ts w)"

section \<open>Deduplication sweeps (class MaintenanceManager)\<close>

type_synonym slot = "string \<times> string \<times> string"

definition slot_of :: "appointment \<Rightarrow> slot" where
  "slot_of a = (patient_phone a, appointment_date a, appointment_time a)"

text \<open>
  The rows of the \<^verbatim>\<open>GROUP BY ... HAVING COUNT(*) > 1\<close> query of \<^verbatim>\<open>checkDbDuplicates\<close>
  over the active rows: one entry per slot with its count. The statement fixes no
  order of the groups.
\<close>

definition duplicate_groups :: "appointment list \<Rightarrow> (slot \<times> nat) list" where
  "duplicate_groups rows =
     (let act = filter is_active rows in
      filter (\<lambda>g. snd g > 1)
        (map (\<lambda>k. (k, length (filter (\<lambda>a. slot_of a = k) act)))
           (remdups (map slot_of act))))"

definition checkDbDuplicates :: "env \<Rightarrow> world \<Rightarrow> (error + (slot \<times> nat) list) \<times> world" where
  "checkDbDuplicates e w =
     (case db_statement e w of
        (True, w1) \<Rightarrow> (Inl StoreError, w1)
      | (False, w1) \<Rightarrow> (Inr (duplicate_groups (appointments w1)), w1))"

text \<open>
  \<^verbatim>\<open>SELECT id FROM appointments WHERE patient_phone = ? AND appointment_date = ? AND
  appointment_time = ? ORDER BY created_at ASC\<close>: the statement has no condition on
  \<^verbatim>\<open>status\<close>. \<^verbatim>\<open>created_at\<close> is compared as text; rows with equal text stay in rowid
  order.
\<close>

definition slot_records :: "slot \<Rightarrow> appointment list \<Rightarrow> nat list" where
  "slot_records k rows =
     map appt_id (sort_key created_at (filter (\<lambda>a. slot_of a = k) rows))"

text \<open>\<^verbatim>\<open>DELETE FROM appointments WHERE id IN (...)\<close>\<close>

definition delete_ids :: "nat list \<Rightarrow> appointment list \<Rightarrow> appointment list" where
  "delete_ids ids rows = filter (\<lambda>a. appt_id a \<notin> set ids) rows"

text \<open>
  The loop of \<^verbatim>\<open>cleanDbDuplicates\<close>. Nothing in the function catches: a rejected
  statement ends the sweep with the error.
\<close>

fun clean_groups ::
  "env \<Rightarrow> (slot \<times> nat) list \<Rightarrow> nat \<Rightarrow> world \<Rightarrow> (error + nat) \<times> world" where
  "clean_groups e [] totalDeleted w = (Inr totalDeleted, w)"
| "clean_groups e (dup # dups) totalDeleted w =
     (case db_statement e w of
        (True, w1) \<Rightarrow> (Inl StoreError, w1)
      | (False, w1) \<Rightarrow>
          (let records = slot_records (fst dup) (appointments w1);
               toDelete = tl records in
           if length toDelete > 0
           then (case db_statement e w1 of
                   (True, w2) \<Rightarrow> (Inl StoreError, w2)
                 | (False, w2) \<Rightarrow>
                     clean_groups e dups (totalDeleted + length toDelete)
                       (w2\<lparr>appointments := delete_ids toDelete (appointments w2)\<rparr>))
           else clean_groups e dups totalDeleted w1))"

definition cleanDbDuplicates :: "env \<Rightarrow> world \<Rightarrow> (error + nat) \<times> world" where
  "cleanDbDuplicates e w =
     (case checkDbDuplicates e w of
        (Inl err, w1) \<Rightarrow> (Inl err, w1)
      | (Inr duplicates, w1) \<Rightarrow>
          if length duplicates = 0 then (Inr 0, w1)
          else clean_groups e duplicates 0 w1)"

text \<open>
  The calendar sweep keys each event by \<^verbatim>\<open>event.start.split('T')[0]\<close>, an underscore and
  \<^verbatim>\<open>event.start.split('T')[1].substring(0, 5)\<close>. When the start holds no \<^verbatim>\<open>T\<close> (an
  all-day event carries a date only) the second element is undefined and the call of
  \<^verbatim>\<open>substring\<close> throws a TypeError.
\<close>

fun split_on :: "char \<Rightarrow> string \<Rightarrow> string list" where
  "split_on c [] = [[]]"
| "split_on c (x # xs) =
     (if x = c then [] # split_on c xs
      else (case split_on c xs of
              [] \<Rightarrow> [[x]]
            | p # ps \<Rightarrow> (x # p) # ps))"

definition slot_key :: "string \<Rightarrow> error + string" where
  "slot_key s =
     (case split_on CHR ''T'' s of
        d # t # _ \<Rightarrow> Inr (d @ ''_'' @ take 5 t)
      | _ \<Rightarrow> Inl TypeError)"

text \<open>
  \<^verbatim>\<open>timeSlots\<close> is a plain object used as a dictionary of arrays; its entries are
  enumerated in insertion order (a key always holds an underscore, so it is never an
  array index). Keys that collide with a member of \<^verbatim>\<open>Object.prototype\<close> do not arise
  from timestamps and are not modelled.
\<close>

fun slot_push ::
  "string \<Rightarrow> cal_event \<Rightarrow> (string \<times> cal_event list) list \<Rightarrow> (string \<times> cal_event list) list" where
  "slot_push k ev [] = [(k, [ev])]"
| "slot_push k ev ((k', evs) # m) =
     (if k' = k then (k', evs @ [ev]) # m else (k', evs) # slot_push k ev m)"

fun group_timeSlots ::
  "cal_event list \<Rightarrow> (string \<times> cal_event list) list
     \<Rightarrow> error + (string \<times> cal_event list) list" where
  "group_timeSlots [] m = Inr m"
| "group_timeSlots (ev # evs) m =
     (case slot_key (ev_start ev) of
        Inl err \<Rightarrow> Inl err
      | Inr k \<Rightarrow> group_timeSlots evs (slot_push k ev m))"

text \<open>
  The ids one slot hands to \<^verbatim>\<open>cancelAppointment\<close>, in the order of the calls.
  \<open>validEventIds\<close> is the \<^verbatim>\<open>Set\<close> built from the rows of the store query.
\<close>

definition slot_deletions :: "string option list \<Rightarrow> cal_event list \<Rightarrow> string list" where
  "slot_deletions validEventIds slotEvents =
     (if length slotEvents \<le> 1 then []
      else
        (let validEvents = filter (\<lambda>ev. Some (ev_id ev) \<in> set validEventIds) slotEvents;
             invalidEvents = filter (\<lambda>ev. Some (ev_id ev) \<notin> set validEventIds) slotEvents in
         if length validEvents > 0
         then map ev_id invalidEvents @
                (if length validEvents > 1 then map ev_id (tl validEvents) else [])
         else map ev_id (tl slotEvents)))"

text \<open>
  The calls of \<^verbatim>\<open>cancelAppointment\<close> are awaited one after the other with no
  \<^verbatim>\<open>try/catch\<close> around a single call: the first one that throws leaves the loops.
\<close>

fun cancel_each :: "env \<Rightarrow> string list \<Rightarrow> nat \<Rightarrow> world \<Rightarrow> (error + nat) \<times> world" where
  "cancel_each e [] totalDeleted w = (Inr totalDeleted, w)"
| "cancel_each e (eventId # ids) totalDeleted w =
     (case cancelAppointment e eventId w of
        (Inl err, w1) \<Rightarrow> (Inl err, w1)
      | (Inr u, w1) \<Rightarrow> cancel_each e ids (Suc totalDeleted) w1)"

fun clean_slots ::
  "env \<Rightarrow> string option list \<Rightarrow> (string \<times> cal_event list) list \<Rightarrow> nat \<Rightarrow> world
     \<Rightarrow> (error + nat) \<times> world" where
  "clean_slots e validEventIds [] totalDeleted w = (Inr totalDeleted, w)"
| "clean_slots e validEventIds (entry # slots) totalDeleted w =
     (case cancel_each e (slot_deletions validEventIds (snd entry)) totalDeleted w of
        (Inl err, w1) \<Rightarrow> (Inl err, w1)
      | (Inr n, w1) \<Rightarrow> clean_slots e validEventIds slots n w1)"

text \<open>
  \<^verbatim>\<open>cleanCalendarDuplicates\<close>: the single outer \<^verbatim>\<open>catch\<close> turns any failure into the
  result 0.
\<close>

definition cleanCalendarDuplicates :: "env \<Rightarrow> world \<Rightarrow> nat \<times> world" where
  "cleanCalendarDuplicates e w =
     (case authenticate e w of
        (Inl err, w1) \<Rightarrow> (0, w1)
      | (Inr u, w1) \<Rightarrow>
          (case db_statement e w1 of
             (True, w2) \<Rightarrow> (0, w2)
           | (False, w2) \<Rightarrow>
               (case getUpcomingAppointments e 30 w2 of
                  (Inl err, w3) \<Rightarrow> (0, w3)
                | (Inr events, w3) \<Rightarrow>
                    (let validEventIds =
                           map google_event_id (scheduled_with_event (appointments w3)) in
                     case group_timeSlots events [] of
                       Inl err \<Rightarrow> (0, w3)
                     | Inr timeSlots \<Rightarrow>
                         (case clean_slots e validEventIds timeSlots 0 w3 of
                            (Inl err, w4) \<Rightarrow> (0, w4)
                          | (Inr totalDeleted, w4) \<Rightarrow> (totalDeleted, w4))))))"

section \<open>Observations on the gateway log and the queues\<close>

text \<open>
  An invocation that changes or removes the event with the given id:
  \<^verbatim>\<open>updateAppointment\<close> or \<^verbatim>\<open>cancelAppointment\<close> for that id.
\<close>

definition modifies_event :: "string \<Rightarrow> gw_call \<Rightarrow> bool" where
  "modifies_event eventId c =
     (case c of
        UpdateAppointment i d \<Rightarrow> i = eventId
      | CancelAppointment i \<Rightarrow> i = eventId
      | _ \<Rightarrow> False)"

text \<open>
  The invocation the update loop of \<^verbatim>\<open>applySyncFixes\<close> makes for one queued pair, given
  the patients table.
\<close>

definition update_call :: "patient list \<Rightarrow> appointment \<times> cal_event \<Rightarrow> gw_call" where
  "update_call ps item =
     UpdateAppointment (ev_id (snd item))
       (appointment_payload (fst item) (patients_by_phone (patient_phone (fst item)) ps))"

text \<open>
  What the comparison loop pushes to \<^verbatim>\<open>toUpdateInCalendar\<close>, entry by entry; the
  lemma \<open>find_discrepancies_loop_updates\<close> below shows that the loop computes it.
\<close>

definition mismatched ::
  "env \<Rightarrow> (string \<times> cal_event) list \<Rightarrow> (string \<times> appointment) list
     \<Rightarrow> (appointment \<times> cal_event) list" where
  "mismatched e cm dm =
     concat (map (\<lambda>entry. case map_of cm (fst entry) of
                    None \<Rightarrow> []
                  | Some calendarEvent \<Rightarrow>
                      if \<not> isSame (moment_tz e (local_datetime (snd entry)))
                                  (moment e (ev_start calendarEvent))
                      then [(snd entry, calendarEvent)] else []) dm)"

text \<open>The events the calendar sweep files under one key.\<close>

definition same_slot :: "string \<Rightarrow> cal_event \<Rightarrow> bool" where
  "same_slot k ev = (slot_key (ev_start ev) = Inr k)"

text \<open>The gateway invocations that belong to the compare-and-apply pass.\<close>

definition reconciles :: "gw_call \<Rightarrow> bool" where
  "reconciles c =
     (case c of
        GetUpcomingAppointments n \<Rightarrow> True
      | UpdateAppointment i d \<Rightarrow> True
      | CancelAppointment i \<Rightarrow> True
      | _ \<Rightarrow> False)"

text \<open>The active records of one slot.\<close>

definition active_in_slot :: "slot \<Rightarrow> appointment list \<Rightarrow> appointment list" where
  "active_in_slot k rows = filter (\<lambda>a. slot_of a = k \<and> is_active a) rows"

section \<open>A store and a calendar that disagree on one start time\<close>

text \<open>
  One scheduled appointment at 2025-03-01 10:00 whose mirrored event \<^verbatim>\<open>evt-1\<close> starts at
  10:30, and one event \<^verbatim>\<open>evt-9\<close> that no row references. The clock stands at a time
  long after the coordinator's last run; nothing fails.
\<close>

definition march_appointment :: appointment where
  "march_appointment =
     \<lparr>appt_id = 7, patient_phone = ''9876543210'', patient_name = Some ''Asha'',
      appointment_date = ''2025-03-01'', appointment_time = ''10:00'',
      duration_minutes = Some 30, status = Some ''scheduled'',
      google_event_id = Some ''evt-1'', created_at = ''2025-02-20 09:00:00'',
      updated_at = ''2025-02-20 09:00:00'', appt_notes = None\<rparr>"

definition march_event :: cal_event where
  "march_event =
     \<lparr>ev_id = ''evt-1'', ev_title = Some ''Appointment: Asha'',
      ev_start = ''2025-03-01T10:30:00+05:30'', ev_end = ''2025-03-01T11:00:00+05:30'',
      ev_description = None\<rparr>"

definition stray_event :: cal_event where
  "stray_event =
     \<lparr>ev_id = ''evt-9'', ev_title = Some ''Lunch'',
      ev_start = ''2025-03-02T13:00:00+05:30'', ev_end = ''2025-03-02T14:00:00+05:30'',
      ev_description = None\<rparr>"

definition march_env :: env where
  "march_env =
     \<lparr>clock = (\<lambda>k. 1740700000000),
      moment = (\<lambda>s. if s = ''2025-03-01T10:30:00+05:30'' then Some 1740805200000
                     else if s = ''2025-03-02T13:00:00+05:30'' then Some 1740900600000
                     else None),
      moment_tz = (\<lambda>s. if s = ''2025-03-01T10:00:00'' then Some 1740803400000 else None),
      toISOString_daysAgo = (\<lambda>n t. ''2025-01-29T00:00:00.000Z''),
      db_rejects = (\<lambda>k. False),
      db_datetime_now = (\<lambda>k. ''2025-02-28 00:00:00''),
      gw_throws = (\<lambda>k. False),
      gw_events = (\<lambda>k. [march_event, stray_event]),
      gw_new_id = (\<lambda>k. ''evt-new'')\<rparr>"

definition march_world :: world where
  "march_world =
     \<lparr>manager = new_manager, ticks = 0, appointments = [march_appointment], patients = [],
      sequence = 7, statements = 0, calls = []\<rparr>"

text \<open>
  The same store beside a calendar that agrees with it: the mirrored event starts at
  10:00, the very instant of the appointment.
\<close>

definition punctual_event :: cal_event where
  "punctual_event =
     \<lparr>ev_id = ''evt-1'', ev_title = Some ''Appointment: Asha'',
      ev_start = ''2025-03-01T10:00:00+05:30'', ev_end = ''2025-03-01T10:30:00+05:30'',
      ev_description = None\<rparr>"

definition punctual_env :: env where
  "punctual_env =
     march_env
       \<lparr>moment := (\<lambda>s. if s = ''2025-03-01T10:00:00+05:30'' then Some 1740803400000
                       else if s = ''2025-03-02T13:00:00+05:30'' then Some 1740900600000
                       else None),
        gw_events := (\<lambda>k. [punctual_event, stray_event])\<rparr>"

text \<open>
  The disagreeing calendar again, with a store that rejects the second statement of
  the pass: the patients lookup made for the first queued item.
\<close>

definition lookup_rejected_env :: env where
  "lookup_rejected_env = march_env\<lparr>db_rejects := (\<lambda>k. k = 1)\<rparr>"

section \<open>Recent and older appointments whose events are gone\<close>

text \<open>
  The clock stands at 2025-04-10 04:00:00 UTC. Two scheduled appointments reference
  events the listing does not contain: the first row was created 23 hours 59 minutes
  before, the second 24 hours 1 minute before.
\<close>

definition recent_appointment :: appointment where
  "recent_appointment =
     \<lparr>appt_id = 1, patient_phone = ''9876543210'', patient_name = Some ''Asha'',
      appointment_date = ''2025-04-10'', appointment_time = ''09:00'',
      duration_minutes = Some 30, status = Some ''scheduled'',
      google_event_id = Some ''evt-a'', created_at = ''2025-04-09 04:01:00'',
      updated_at = ''2025-04-09 04:01:00'', appt_notes = None\<rparr>"

definition older_appointment :: appointment where
  "older_appointment =
     \<lparr>appt_id = 2, patient_phone = ''9123456780'', patient_name = Some ''Ravi'',
      appointment_date = ''2025-04-11'', appointment_time = ''11:30'',
      duration_minutes = Some 30, status = Some ''scheduled'',
      google_event_id = Some ''evt-b'', created_at = ''2025-04-09 03:59:00'',
      updated_at = ''2025-04-09 03:59:00'', appt_notes = None\<rparr>"

definition drift_env :: env where
  "drift_env =
     \<lparr>clock = (\<lambda>k. 1744257600000),
      moment = (\<lambda>s. if s = ''2025-04-09 04:01:00'' then Some 1744171260000
                     else if s = ''2025-04-09 03:59:00'' then Some 1744171140000
                     else None),
      moment_tz = (\<lambda>s. None),
      toISOString_daysAgo = (\<lambda>n t. ''2025-03-11T04:00:00.000Z''),
      db_rejects = (\<lambda>k. False),
      db_datetime_now = (\<lambda>k. ''2025-04-10 04:00:00''),
      gw_throws = (\<lambda>k. False),
      gw_events = (\<lambda>k. []),
      gw_new_id = (\<lambda>k. if k = 1 then ''evt-c'' else ''evt-d'')\<rparr>"

definition drift_world :: world where
  "drift_world =
     \<lparr>manager = new_manager, ticks = 0,
      appointments = [recent_appointment, older_appointment], patients = [],
      sequence = 2, statements = 0, calls = []\<rparr>"

section \<open>Two bookings of one slot in flight\<close>

text \<open>
  An environment in which nothing fails and the provider lists the given events, a
  store with empty tables, and the booking both calls ask for.
\<close>

definition quiet_env :: "cal_event list \<Rightarrow> env" where
  "quiet_env listing =
     \<lparr>clock = (\<lambda>k. 1744257600000),
      moment = (\<lambda>s. None),
      moment_tz = (\<lambda>s. None),
      toISOString_daysAgo = (\<lambda>n t. ''2025-03-11T04:00:00.000Z''),
      db_rejects = (\<lambda>k. False),
      db_datetime_now = (\<lambda>k. ''2025-04-10 04:00:00''),
      gw_throws = (\<lambda>k. False),
      gw_events = (\<lambda>k. listing),
      gw_new_id = (\<lambda>k. ''evt-new'')\<rparr>"

definition blank_world :: world where
  "blank_world =
     \<lparr>manager = new_manager, ticks = 0, appointments = [], patients = [],
      sequence = 0, statements = 0, calls = []\<rparr>"

definition booking :: new_appointment where
  "booking =
     \<lparr>new_patient_phone = ''9876543210'', new_patient_name = Some ''Asha'',
      new_appointment_date = ''2025-04-10'', new_appointment_time = ''09:00'',
      new_duration_minutes = Some 30, new_google_event_id = None,
      new_status = Some ''scheduled''\<rparr>"

section \<open>A slot with a cancelled record and two active ones\<close>

text \<open>
  Rows of the slot 2025-04-10 09:00 of one patient. The slot was booked and cancelled,
  then booked twice.
\<close>

definition slot_row :: "nat \<Rightarrow> string \<Rightarrow> string \<Rightarrow> appointment" where
  "slot_row i st created =
     \<lparr>appt_id = i, patient_phone = ''9876543210'', patient_name = Some ''Asha'',
      appointment_date = ''2025-04-10'', appointment_time = ''09:00'',
      duration_minutes = Some 30, status = Some st,
      google_event_id = None, created_at = created, updated_at = created, appt_notes = None\<rparr>"

definition rebooked_world :: world where
  "rebooked_world =
     blank_world\<lparr>appointments :=
       [slot_row 1 ''cancelled'' ''2025-04-01 08:00:00'',
        slot_row 2 ''scheduled'' ''2025-04-02 08:00:00'',
        slot_row 3 ''scheduled'' ''2025-04-02 08:00:05''],
       sequence := 3\<rparr>"

section \<open>Events that share a time slot\<close>

text \<open>An event that starts on 2025-04-10 at 09:00, with the given id.\<close>

definition nine_oclock :: "string \<Rightarrow> cal_event" where
  "nine_oclock i =
     \<lparr>ev_id = i, ev_title = Some ''Appointment: Asha'',
      ev_start = ''2025-04-10T09:00:00+05:30'', ev_end = ''2025-04-10T09:30:00+05:30'',
      ev_description = None\<rparr>"

text \<open>Three events at 09:00; only the third is referenced by a scheduled record.\<close>

definition triple_world :: world where
  "triple_world =
     blank_world\<lparr>appointments :=
       [(slot_row 1 ''scheduled'' ''2025-04-01 08:00:00'')\<lparr>google_event_id := Some ''evt-3''\<rparr>],
       sequence := 1\<rparr>"

text \<open>
  The provider lists the three events and then refuses the third gateway invocation
  (number 2, after \<^verbatim>\<open>authenticate\<close> and the listing): the delete of an event that is
  already gone.
\<close>

definition gone_env :: env where
  "gone_env =
     (quiet_env [nine_oclock ''evt-1'', nine_oclock ''evt-2'', nine_oclock ''evt-3''])
       \<lparr>gw_throws := (\<lambda>k. k = 2)\<rparr>"

text \<open>
  Two events at 09:00 and one record with status \<^verbatim>\<open>confirmed\<close> that references the
  event named by the argument.
\<close>

definition confirmed_world :: "string \<Rightarrow> world" where
  "confirmed_world i =
     blank_world\<lparr>appointments :=
       [(slot_row 1 ''confirmed'' ''2025-04-01 08:00:00'')\<lparr>google_event_id := Some i\<rparr>],
       sequence := 1\<rparr>"

section \<open>Properties of the coordinator\<close>

text \<open>
  C7. \<^verbatim>\<open>start()\<close> returns false and leaves the coordinator as it was when a sync is
  running or when the clock reading minus \<^verbatim>\<open>lastRun\<close> is below the five-minute minimum
  interval; otherwise it returns true with \<^verbatim>\<open>isRunning\<close> set and \<^verbatim>\<open>lastRun\<close> set to
  the current clock reading. \<^verbatim>\<open>stop()\<close> always clears \<^verbatim>\<open>isRunning\<close> and touches
  nothing else. Both are total functions: no path raises.
\<close>

theorem start_stop_contract:
  "minInterval = 300000 \<and>
   (isRunning m \<or> now1 - lastRun m < minInterval \<longrightarrow> start now1 now2 m = (False, m)) \<and>
   (\<not> isRunning m \<and> \<not> now1 - lastRun m < minInterval \<longrightarrow>
      start now1 now2 m = (True, m\<lparr>isRunning := True, lastRun := now2\<rparr>)) \<and>
   isRunning (stop m) = False \<and> lastRun (stop m) = lastRun m"
  by (simp add: start_def canRun_def stop_def minInterval_def)

theorem start_stop_contract_witness:
  "start 299999 299999 new_manager = (False, new_manager) \<and>
   start 300000 300001 new_manager = (True, \<lparr>isRunning = True, lastRun = 300001\<rparr>) \<and>
   start 900000 900000 \<lparr>isRunning = True, lastRun = 300001\<rparr>
     = (False, \<lparr>isRunning = True, lastRun = 300001\<rparr>) \<and>
   isRunning (stop \<lparr>isRunning = True, lastRun = 300001\<rparr>) = False"
proof -
  have early: "299999 - lastRun new_manager < minInterval"
    by (simp add: new_manager_def minInterval_def)
  have idle: "\<not> isRunning new_manager \<and> \<not> 300000 - lastRun new_manager < minInterval"
    by (simp add: new_manager_def minInterval_def)
  have busy: "isRunning \<lparr>isRunning = True, lastRun = 300001\<rparr>"
    by simp
  have same: "new_manager\<lparr>isRunning := True, lastRun := 300001\<rparr>
                = \<lparr>isRunning = True, lastRun = 300001\<rparr>"
    by (simp add: new_manager_def)
  show ?thesis
    using start_stop_contract [of new_manager 299999 299999]
          start_stop_contract [of new_manager 300000 300001]
          start_stop_contract [of "\<lparr>isRunning = True, lastRun = 300001\<rparr>" 900000 900000]
          early idle busy same
    by metis
qed

section \<open>Lemmas about the reconciliation engine\<close>

subsection \<open>Maps in iteration order\<close>

lemma keys_map_set:
  "map fst (map_set k v m) = (if k \<in> fst ` set m then map fst m else map fst m @ [k])"
  by (induction k v m rule: map_set.induct) (auto simp: image_iff)

lemma distinct_map_set: "distinct (map fst m) \<Longrightarrow> distinct (map fst (map_set k v m))"
  by (simp add: keys_map_set)

lemma set_map_set:
  "distinct (map fst m) \<Longrightarrow> set (map_set k v m) = insert (k, v) {p \<in> set m. fst p \<noteq> k}"
  by (induction k v m rule: map_set.induct) (auto simp: image_iff)

lemma dbAppointmentMap_snoc:
  "dbAppointmentMap (rows @ [a]) =
     (case google_event_id a of
        None \<Rightarrow> dbAppointmentMap rows
      | Some ev \<Rightarrow> if ev \<noteq> [] then map_set ev a (dbAppointmentMap rows)
                  else dbAppointmentMap rows)"
  by (simp add: dbAppointmentMap_def split: option.splits)

lemma dbAppointmentMap_Nil: "dbAppointmentMap [] = []"
  by (simp add: dbAppointmentMap_def)

lemma dbAppointmentMap_distinct: "distinct (map fst (dbAppointmentMap rows))"
proof (induction rows rule: rev_induct)
  case Nil
  then show ?case by (simp add: dbAppointmentMap_Nil)
next
  case (snoc r rows)
  then show ?case
    by (simp add: dbAppointmentMap_snoc distinct_map_set split: option.splits)
qed

lemmas set_dbAppointmentMap_set = set_map_set [OF dbAppointmentMap_distinct]

lemma dbAppointmentMap_entry:
  "(k, a) \<in> set (dbAppointmentMap rows) \<Longrightarrow>
     a \<in> set rows \<and> google_event_id a = Some k \<and> k \<noteq> []"
proof (induction rows arbitrary: k a rule: rev_induct)
  case Nil
  then show ?case by (simp add: dbAppointmentMap_Nil)
next
  case (snoc r rows)
  then show ?case
    by (auto simp: dbAppointmentMap_snoc set_dbAppointmentMap_set split: option.splits if_splits)
qed

lemma dbAppointmentMap_member:
  "distinct (map google_event_id rows) \<Longrightarrow> a \<in> set rows \<Longrightarrow>
   google_event_id a = Some k \<Longrightarrow> k \<noteq> [] \<Longrightarrow> (k, a) \<in> set (dbAppointmentMap rows)"
proof (induction rows rule: rev_induct)
  case Nil
  then show ?case by simp
next
  case (snoc r rows)
  show ?case
  proof (cases "a = r")
    case True
    with snoc.prems show ?thesis
      by (simp add: dbAppointmentMap_snoc set_dbAppointmentMap_set)
  next
    case False
    with snoc.prems have in_rows: "a \<in> set rows" by simp
    from snoc.prems have d: "distinct (map google_event_id rows)"
      and fresh: "google_event_id r \<notin> google_event_id ` set rows" by simp_all
    from in_rows snoc.prems fresh have ne: "google_event_id r \<noteq> Some k"
      by (metis image_eqI)
    from snoc.IH [OF d in_rows snoc.prems(3) snoc.prems(4)] ne show ?thesis
      by (auto simp: dbAppointmentMap_snoc set_dbAppointmentMap_set split: option.splits)
  qed
qed

lemma calendarEventMap_snoc:
  "calendarEventMap (evs @ [ev]) = map_set (ev_id ev) ev (calendarEventMap evs)"
  by (simp add: calendarEventMap_def)

lemma calendarEventMap_distinct: "distinct (map fst (calendarEventMap evs))"
proof (induction evs rule: rev_induct)
  case Nil
  then show ?case by (simp add: calendarEventMap_def)
next
  case (snoc x evs)
  then show ?case by (simp add: calendarEventMap_snoc distinct_map_set)
qed

lemmas set_calendarEventMap_set = set_map_set [OF calendarEventMap_distinct]

lemma calendarEventMap_entry:
  "(k, ev) \<in> set (calendarEventMap evs) \<Longrightarrow> ev_id ev = k \<and> ev \<in> set evs"
proof (induction evs arbitrary: k ev rule: rev_induct)
  case Nil
  then show ?case by (simp add: calendarEventMap_def)
next
  case (snoc x evs)
  then show ?case
    by (auto simp: calendarEventMap_snoc set_calendarEventMap_set)
qed

lemma calendarEventMap_get_id:
  "map_of (calendarEventMap evs) k = Some ev \<Longrightarrow> ev_id ev = k"
  using calendarEventMap_entry map_of_SomeD by fast

lemma calendarEventMap_member:
  "distinct (map ev_id evs) \<Longrightarrow> ev \<in> set evs \<Longrightarrow>
   map_of (calendarEventMap evs) (ev_id ev) = Some ev"
proof (induction evs rule: rev_induct)
  case Nil
  then show ?case by simp
next
  case (snoc x evs)
  show ?case
  proof (cases "ev = x")
    case True
    have "(ev_id x, x) \<in> set (calendarEventMap (evs @ [x]))"
      by (simp add: calendarEventMap_snoc set_calendarEventMap_set)
    with True show ?thesis
      using calendarEventMap_distinct [of "evs @ [x]"] by simp
  next
    case False
    with snoc.prems have in_evs: "ev \<in> set evs" by simp
    from snoc.prems have d: "distinct (map ev_id evs)"
      and fresh: "ev_id x \<notin> ev_id ` set evs" by simp_all
    from in_evs fresh have ne: "ev_id x \<noteq> ev_id ev" by (metis image_eqI)
    from snoc.IH [OF d in_evs] have "(ev_id ev, ev) \<in> set (calendarEventMap evs)"
      by (rule map_of_SomeD)
    with ne have "(ev_id ev, ev) \<in> set (calendarEventMap (evs @ [x]))"
      by (simp add: calendarEventMap_snoc set_calendarEventMap_set)
    then show ?thesis
      using calendarEventMap_distinct [of "evs @ [x]"] by simp
  qed
qed

subsection \<open>Frame properties of the primitives\<close>

lemma foldl_preserves:
  "(\<And>s x. x \<in> set xs \<Longrightarrow> g (f s x) = g s) \<Longrightarrow> g (foldl f s xs) = g s"
  by (induction xs arbitrary: s) simp_all

lemma syncManager_start_frame:
  "syncManager_start e w = (ok, w1) \<Longrightarrow>
     calls w1 = calls w \<and> appointments w1 = appointments w \<and> patients w1 = patients w
     \<and> statements w1 = statements w \<and> sequence w1 = sequence w"
  by (auto simp: syncManager_start_def split: prod.splits)

lemma syncManager_start_ok:
  "\<not> isRunning (manager w) \<Longrightarrow> \<not> clock e (ticks w) - lastRun (manager w) < minInterval \<Longrightarrow>
     fst (syncManager_start e w) = True"
  by (simp add: syncManager_start_def start_def canRun_def split: prod.splits)

lemma syncManager_stop_frame [simp]:
  "calls (syncManager_stop w) = calls w"
  "appointments (syncManager_stop w) = appointments w"
  "patients (syncManager_stop w) = patients w"
  "statements (syncManager_stop w) = statements w"
  "isRunning (manager (syncManager_stop w)) = False"
  by (simp_all add: syncManager_stop_def stop_def)

lemma db_statement_frame:
  "db_statement e w = (r, w1) \<Longrightarrow>
     r = db_rejects e (statements w) \<and> calls w1 = calls w \<and> appointments w1 = appointments w
     \<and> patients w1 = patients w \<and> manager w1 = manager w \<and> ticks w1 = ticks w"
  by (auto simp: db_statement_def)

lemma gateway_frame:
  "gateway e c w = (r, w1) \<Longrightarrow>
     calls w1 = calls w @ [c] \<and> appointments w1 = appointments w \<and> patients w1 = patients w
     \<and> manager w1 = manager w \<and> statements w1 = statements w \<and> ticks w1 = ticks w
     \<and> r = (if gw_throws e (length (calls w)) then None else Some (length (calls w)))"
  by (auto simp: gateway_def Let_def)

lemma getUpcomingAppointments_frame:
  "getUpcomingAppointments e n w = (r, w1) \<Longrightarrow>
     calls w1 = calls w @ [GetUpcomingAppointments n] \<and> appointments w1 = appointments w
     \<and> patients w1 = patients w \<and> manager w1 = manager w \<and> statements w1 = statements w
     \<and> r = (if gw_throws e (length (calls w)) then Inl CalendarError
            else Inr (gw_events e (length (calls w))))"
  by (auto simp: getUpcomingAppointments_def dest!: gateway_frame split: prod.splits option.splits if_splits)

lemma createAppointment_frame:
  "createAppointment e d w = (r, w1) \<Longrightarrow>
     calls w1 = calls w @ [CreateAppointment d] \<and> appointments w1 = appointments w
     \<and> patients w1 = patients w \<and> manager w1 = manager w \<and> statements w1 = statements w
     \<and> r = (if gw_throws e (length (calls w)) then Inl CalendarError
            else Inr (gw_new_id e (length (calls w))))"
  by (auto simp: createAppointment_def dest!: gateway_frame split: prod.splits option.splits if_splits)

lemma updateAppointment_frame:
  "updateAppointment e i d w = (r, w1) \<Longrightarrow>
     calls w1 = calls w @ [UpdateAppointment i d] \<and> appointments w1 = appointments w
     \<and> patients w1 = patients w \<and> manager w1 = manager w \<and> statements w1 = statements w"
  by (auto simp: updateAppointment_def dest!: gateway_frame split: prod.splits option.splits if_splits)

lemma cancelAppointment_frame:
  "cancelAppointment e i w = (r, w1) \<Longrightarrow>
     calls w1 = calls w @ [CancelAppointment i] \<and> appointments w1 = appointments w
     \<and> patients w1 = patients w \<and> manager w1 = manager w \<and> statements w1 = statements w
     \<and> r = (if gw_throws e (length (calls w)) then Inl CalendarError else Inr ())"
  by (auto simp: cancelAppointment_def dest!: gateway_frame split: prod.splits option.splits if_splits)

subsection \<open>The comparison loop\<close>

lemma check_appointment_frame:
  "check_appointment e cm (q, w) entry = (q1, w1) \<Longrightarrow>
     calls w1 = calls w \<and> appointments w1 = appointments w \<and> patients w1 = patients w
     \<and> manager w1 = manager w \<and> statements w1 = statements w
     \<and> toDeleteInCalendar q1 = toDeleteInCalendar q \<and> toUpdateInDb q1 = toUpdateInDb q
     \<and> toDeleteInDb q1 = toDeleteInDb q"
  by (auto simp: check_appointment_def Date_now_def Let_def split: prod.splits option.splits if_splits)

lemma find_discrepancies_loop_frame:
  "foldl (check_appointment e cm) (q, w) dm = (q1, w1) \<Longrightarrow>
     calls w1 = calls w \<and> appointments w1 = appointments w \<and> patients w1 = patients w
     \<and> manager w1 = manager w \<and> statements w1 = statements w
     \<and> toDeleteInCalendar q1 = toDeleteInCalendar q \<and> toUpdateInDb q1 = toUpdateInDb q
     \<and> toDeleteInDb q1 = toDeleteInDb q"
proof (induction dm arbitrary: q w)
  case Nil
  then show ?case by simp
next
  case (Cons entry dm)
  obtain q' w' where step: "check_appointment e cm (q, w) entry = (q', w')"
    by fastforce
  from Cons.prems step have "foldl (check_appointment e cm) (q', w') dm = (q1, w1)"
    by simp
  from Cons.IH [OF this] check_appointment_frame [OF step] show ?case
    by simp
qed

lemma find_discrepancies_loop_updates:
  "foldl (check_appointment e cm) (q, w) dm = (q1, w1) \<Longrightarrow>
     toUpdateInCalendar q1 = toUpdateInCalendar q @ mismatched e cm dm"
proof (induction dm arbitrary: q w)
  case Nil
  then show ?case by (simp add: mismatched_def)
next
  case (Cons entry dm)
  obtain q' w' where step: "check_appointment e cm (q, w) entry = (q', w')"
    by fastforce
  from Cons.prems step have rest: "foldl (check_appointment e cm) (q', w') dm = (q1, w1)"
    by simp
  have "toUpdateInCalendar q' = toUpdateInCalendar q @ mismatched e cm [entry]"
    using step
    by (auto simp: check_appointment_def mismatched_def Date_now_def Let_def
             split: prod.splits option.splits if_splits)
  with Cons.IH [OF rest] show ?case
    by (simp add: mismatched_def)
qed

lemma find_discrepancies_loop_creates:
  "foldl (check_appointment e cm) (q, w) dm = (q1, w1) \<Longrightarrow>
     set (toCreateInCalendar q1) \<subseteq>
       set (toCreateInCalendar q) \<union> {a. \<exists>k. (k, a) \<in> set dm \<and> map_of cm k = None}"
proof (induction dm arbitrary: q w)
  case Nil
  then show ?case by simp
next
  case (Cons entry dm)
  obtain q' w' where step: "check_appointment e cm (q, w) entry = (q', w')"
    by fastforce
  from Cons.prems step have rest: "foldl (check_appointment e cm) (q', w') dm = (q1, w1)"
    by simp
  have "set (toCreateInCalendar q') \<subseteq>
          set (toCreateInCalendar q) \<union> {a. \<exists>k. (k, a) = entry \<and> map_of cm k = None}"
    using step
    by (auto simp: check_appointment_def Date_now_def Let_def
             split: prod.splits option.splits if_splits)
  with Cons.IH [OF rest] show ?case
    by auto
qed

lemma mismatched_entry:
  "(a, cev) \<in> set (mismatched e cm dm) \<Longrightarrow> \<exists>k. (k, a) \<in> set dm \<and> map_of cm k = Some cev"
  by (auto simp: mismatched_def split: option.splits if_splits)

subsection \<open>The loops that apply the fixes\<close>

lemma set_google_event_id_ids [simp]:
  "map appt_id (set_google_event_id ev now i rows) = map appt_id rows"
  by (induction rows) (simp_all add: set_google_event_id_def)

lemma set_google_event_id_other:
  "i \<noteq> j \<Longrightarrow>
     filter (\<lambda>x. appt_id x = j) (set_google_event_id ev now i rows)
       = filter (\<lambda>x. appt_id x = j) rows"
  by (induction rows) (simp_all add: set_google_event_id_def)

lemma recreate_event_frame:
  "patients (recreate_event e w a) = patients w"
  "manager (recreate_event e w a) = manager w"
  "map appt_id (appointments (recreate_event e w a)) = map appt_id (appointments w)"
  by (auto simp: recreate_event_def
           dest!: db_statement_frame createAppointment_frame
           split: prod.splits bool.splits sum.splits)

lemma recreate_event_calls:
  "(\<And>d. \<not> P (CreateAppointment d)) \<Longrightarrow>
     filter P (calls (recreate_event e w a)) = filter P (calls w)"
  by (auto simp: recreate_event_def
           dest!: db_statement_frame createAppointment_frame
           split: prod.splits bool.splits sum.splits)

lemma recreate_event_other_row:
  "appt_id a \<noteq> j \<Longrightarrow>
     filter (\<lambda>x. appt_id x = j) (appointments (recreate_event e w a))
       = filter (\<lambda>x. appt_id x = j) (appointments w)"
  by (auto simp: recreate_event_def set_google_event_id_other
           dest!: db_statement_frame createAppointment_frame
           split: prod.splits bool.splits sum.splits)

lemma updateAppointment_snd:
  "calls (snd (updateAppointment e i d w)) = calls w @ [UpdateAppointment i d]"
  "patients (snd (updateAppointment e i d w)) = patients w"
  "manager (snd (updateAppointment e i d w)) = manager w"
  "appointments (snd (updateAppointment e i d w)) = appointments w"
  by (simp_all add: updateAppointment_def gateway_def Let_def split: prod.splits option.splits)

lemma update_event_frame:
  "patients (update_event e w item) = patients w"
  "manager (update_event e w item) = manager w"
  "appointments (update_event e w item) = appointments w"
  by (auto simp: update_event_def updateAppointment_snd
           dest!: db_statement_frame
           split: prod.splits bool.splits)

lemma update_event_calls:
  "calls (update_event e w item) =
     calls w @ (if db_rejects e (statements w) then [] else [update_call (patients w) item])"
  by (auto simp: update_event_def update_call_def updateAppointment_snd
           dest!: db_statement_frame
           split: prod.splits bool.splits)

lemma recreate_loop_frame:
  "patients (foldl (recreate_event e) w as) = patients w"
  "manager (foldl (recreate_event e) w as) = manager w"
  "map appt_id (appointments (foldl (recreate_event e) w as)) = map appt_id (appointments w)"
  by (rule foldl_preserves, simp add: recreate_event_frame)+

lemma recreate_loop_calls:
  "(\<And>d. \<not> P (CreateAppointment d)) \<Longrightarrow>
     filter P (calls (foldl (recreate_event e) w as)) = filter P (calls w)"
  by (rule foldl_preserves) (simp add: recreate_event_calls)

lemma recreate_loop_other_row:
  "j \<notin> appt_id ` set as \<Longrightarrow>
     filter (\<lambda>x. appt_id x = j) (appointments (foldl (recreate_event e) w as))
       = filter (\<lambda>x. appt_id x = j) (appointments w)"
  by (rule foldl_preserves) (rule recreate_event_other_row, auto)

lemma update_loop_frame:
  "patients (foldl (update_event e) w items) = patients w"
  "manager (foldl (update_event e) w items) = manager w"
  "appointments (foldl (update_event e) w items) = appointments w"
  by (rule foldl_preserves, simp add: update_event_frame)+

lemma update_loop_calls_other:
  "eventId \<notin> (ev_id \<circ> snd) ` set items \<Longrightarrow>
     filter (modifies_event eventId) (calls (foldl (update_event e) w items))
       = filter (modifies_event eventId) (calls w)"
  by (rule foldl_preserves)
     (auto simp: update_event_calls update_call_def modifies_event_def)

subsection \<open>The paths of syncAppointments\<close>

lemma applySyncFixes_queued:
  "toDeleteInCalendar q = [] \<Longrightarrow> toUpdateInDb q = [] \<Longrightarrow> toDeleteInDb q = [] \<Longrightarrow>
     applySyncFixes e q w =
       foldl (update_event e) (foldl (recreate_event e) w (toCreateInCalendar q))
         (toUpdateInCalendar q)"
  by (simp add: applySyncFixes_def)

lemma find_discrepancies_result:
  assumes "find_discrepancies e dm cm w = (q, w1)"
  shows "calls w1 = calls w" "appointments w1 = appointments w" "patients w1 = patients w"
    "manager w1 = manager w" "statements w1 = statements w"
    "toDeleteInCalendar q = []" "toUpdateInDb q = []" "toDeleteInDb q = []"
    "toUpdateInCalendar q = mismatched e cm dm"
    "set (toCreateInCalendar q) \<subseteq> {a. \<exists>k. (k, a) \<in> set dm \<and> map_of cm k = None}"
  using find_discrepancies_loop_frame [OF assms [unfolded find_discrepancies_def]]
        find_discrepancies_loop_updates [OF assms [unfolded find_discrepancies_def]]
        find_discrepancies_loop_creates [OF assms [unfolded find_discrepancies_def]]
  by (simp_all add: empty_queues_def)

lemma syncAppointments_paths:
  assumes skipped: "\<And>w1. syncManager_start e w = (False, w1) \<Longrightarrow>
            syncAppointments e w = (Inr (), syncManager_stop w1) \<Longrightarrow> thesis"
    and store_failed: "\<And>w1 w2. syncManager_start e w = (True, w1) \<Longrightarrow>
            db_statement e w1 = (True, w2) \<Longrightarrow>
            syncAppointments e w = (Inl StoreError, syncManager_stop w2) \<Longrightarrow> thesis"
    and listing_failed: "\<And>w1 w2 err w3. syncManager_start e w = (True, w1) \<Longrightarrow>
            db_statement e w1 = (False, w2) \<Longrightarrow>
            getUpcomingAppointments e 30 w2 = (Inl err, w3) \<Longrightarrow>
            syncAppointments e w = (Inl err, syncManager_stop w3) \<Longrightarrow> thesis"
    and ran: "\<And>w1 w2 calendarEvents w3 q w4. syncManager_start e w = (True, w1) \<Longrightarrow>
            db_statement e w1 = (False, w2) \<Longrightarrow>
            getUpcomingAppointments e 30 w2 = (Inr calendarEvents, w3) \<Longrightarrow>
            find_discrepancies e (dbAppointmentMap (scheduled_with_event (appointments w2)))
              (calendarEventMap calendarEvents) w3 = (q, w4) \<Longrightarrow>
            syncAppointments e w = (Inr (), syncManager_stop (applySyncFixes e q w4)) \<Longrightarrow> thesis"
  shows thesis
proof -
  obtain ok w1 where s: "syncManager_start e w = (ok, w1)" by fastforce
  show thesis
  proof (cases ok)
    case False
    with s show thesis by (intro skipped [of w1]) (simp_all add: syncAppointments_def)
  next
    case True
    obtain r w2 where d: "db_statement e w1 = (r, w2)" by fastforce
    show thesis
    proof (cases r)
      case True
      with s \<open>ok\<close> d show thesis
        by (intro store_failed [of w1 w2]) (simp_all add: syncAppointments_def)
    next
      case False
      obtain res w3 where g: "getUpcomingAppointments e 30 w2 = (res, w3)" by fastforce
      show thesis
      proof (cases res)
        case (Inl err)
        with s \<open>ok\<close> d False g show thesis
          by (intro listing_failed [of w1 w2 err w3]) (simp_all add: syncAppointments_def)
      next
        case (Inr calendarEvents)
        obtain q w4 where f:
          "find_discrepancies e (dbAppointmentMap (scheduled_with_event (appointments w2)))
             (calendarEventMap calendarEvents) w3 = (q, w4)" by fastforce
        with s \<open>ok\<close> d False g Inr show thesis
          by (intro ran [of w1 w2 calendarEvents w3 q w4]) (simp_all add: syncAppointments_def)
      qed
    qed
  qed
qed

subsection \<open>Updates queued for one event\<close>

lemma mismatched_Cons:
  "mismatched e cm (entry # dm) = mismatched e cm [entry] @ mismatched e cm dm"
  by (simp add: mismatched_def)

lemma mismatched_single:
  "mismatched e cm [(k, a)] =
     (case map_of cm k of
        None \<Rightarrow> []
      | Some cev \<Rightarrow>
          if isSame (moment_tz e (local_datetime a)) (moment e (ev_start cev)) then []
          else [(a, cev)])"
  by (simp add: mismatched_def split: option.splits)

lemma mismatched_updates_absent:
  assumes ids: "\<And>k' v. map_of cm k' = Some v \<Longrightarrow> ev_id v = k'"
  shows "k \<notin> fst ` set dm \<Longrightarrow>
     filter (modifies_event k) (map (update_call ps) (mismatched e cm dm)) = []"
proof (induction dm)
  case Nil
  then show ?case by (simp add: mismatched_def)
next
  case (Cons entry dm)
  obtain k' a' where entry: "entry = (k', a')" by (cases entry)
  from Cons.prems entry have ne: "k' \<noteq> k" and rest: "k \<notin> fst ` set dm" by auto
  have "filter (modifies_event k) (map (update_call ps) (mismatched e cm [(k', a')])) = []"
    using ne ids
    by (auto simp: mismatched_single update_call_def modifies_event_def split: option.splits)
  with Cons.IH [OF rest] entry show ?case
    by (simp add: mismatched_Cons [of e cm "(k', a')" dm])
qed

lemma mismatched_updates_present:
  assumes ids: "\<And>k' v. map_of cm k' = Some v \<Longrightarrow> ev_id v = k'"
    and found: "map_of cm k = Some cev"
  shows "distinct (map fst dm) \<Longrightarrow> (k, a) \<in> set dm \<Longrightarrow>
     filter (modifies_event k) (map (update_call ps) (mismatched e cm dm)) =
       (if isSame (moment_tz e (local_datetime a)) (moment e (ev_start cev)) then []
        else [update_call ps (a, cev)])"
proof (induction dm)
  case Nil
  then show ?case by simp
next
  case (Cons entry dm)
  obtain k' a' where entry: "entry = (k', a')" by (cases entry)
  show ?case
  proof (cases "k' = k")
    case True
    with Cons.prems entry have absent: "k \<notin> fst ` set dm" by auto
    with Cons.prems entry True have same_row: "a' = a"
      by (metis fst_conv image_eqI set_ConsD snd_conv)
    have head: "filter (modifies_event k) (map (update_call ps) (mismatched e cm [(k, a)])) =
       (if isSame (moment_tz e (local_datetime a)) (moment e (ev_start cev)) then []
        else [update_call ps (a, cev)])"
      using found ids [OF found]
      by (simp add: mismatched_single update_call_def modifies_event_def)
    from mismatched_updates_absent [of cm k dm ps e, OF ids absent] head entry True same_row
    show ?thesis
      by (simp add: mismatched_Cons [of e cm "(k, a)" dm])
  next
    case False
    with Cons.prems entry have d: "distinct (map fst dm)" and m: "(k, a) \<in> set dm" by auto
    have "filter (modifies_event k) (map (update_call ps) (mismatched e cm [(k', a')])) = []"
      using False ids
      by (auto simp: mismatched_single update_call_def modifies_event_def split: option.splits)
    with Cons.IH [OF d m] entry show ?thesis
      by (simp add: mismatched_Cons [of e cm "(k', a')" dm])
  qed
qed

lemma filter_by_distinct_key:
  "distinct (map f xs) \<Longrightarrow> a \<in> set xs \<Longrightarrow> filter (\<lambda>x. f x = f a) xs = [a]"
proof (induction xs)
  case Nil
  then show ?case by simp
next
  case (Cons x xs)
  show ?case
  proof (cases "x = a")
    case True
    with Cons.prems have "f a \<notin> f ` set xs" by simp
    then have "\<And>x. x \<in> set xs \<Longrightarrow> f x \<noteq> f a"
      by (metis imageI)
    then have "filter (\<lambda>x. f x = f a) xs = []"
      by (simp add: filter_empty_conv)
    with True show ?thesis by simp
  next
    case False
    with Cons.prems have "a \<in> set xs" and "distinct (map f xs)" and "f x \<noteq> f a"
      by (auto simp: image_iff)
    with Cons.IH show ?thesis by simp
  qed
qed

section \<open>The gate is released on every path\<close>

text \<open>
  C9. \<^verbatim>\<open>syncAppointments\<close> and \<^verbatim>\<open>performFullSync\<close> run \<^verbatim>\<open>syncManager.stop()\<close> in their
  \<^verbatim>\<open>finally\<close> block on every path, the early return after a refused \<^verbatim>\<open>start()\<close>
  included. So whatever the state before the call and whatever fails during it, the
  coordinator's \<^verbatim>\<open>isRunning\<close> is false when the call returns. In particular, when
  another sync holds the gate (\<^verbatim>\<open>isRunning\<close> is true before the call), \<^verbatim>\<open>start()\<close> is
  refused, the call returns normally, and the flag of the sync still in progress has
  been cleared.
\<close>

theorem stop_on_every_path:
  "isRunning (manager (snd (syncAppointments e w))) = False \<and>
   isRunning (manager (snd (performFullSync e w))) = False \<and>
   fst (syncManager_start e (w\<lparr>manager := (manager w)\<lparr>isRunning := True\<rparr>\<rparr>)) = False \<and>
   syncAppointments e (w\<lparr>manager := (manager w)\<lparr>isRunning := True\<rparr>\<rparr>)
     = (Inr (), w\<lparr>manager := (manager w)\<lparr>isRunning := False\<rparr>, ticks := Suc (ticks w)\<rparr>) \<and>
   performFullSync e (w\<lparr>manager := (manager w)\<lparr>isRunning := True\<rparr>\<rparr>)
     = (Inr (), w\<lparr>manager := (manager w)\<lparr>isRunning := False\<rparr>, ticks := Suc (ticks w)\<rparr>)"
proof -
  have every_sync: "isRunning (manager (snd (syncAppointments e w))) = False"
    by (simp add: syncAppointments_def Let_def split: prod.splits bool.splits sum.splits)
  have every_full: "isRunning (manager (snd (performFullSync e w))) = False"
    by (simp add: performFullSync_def split: prod.splits bool.splits sum.splits)
  have refused:
    "syncManager_start e (w\<lparr>manager := (manager w)\<lparr>isRunning := True\<rparr>\<rparr>)
       = (False, w\<lparr>manager := (manager w)\<lparr>isRunning := True\<rparr>, ticks := Suc (ticks w)\<rparr>)"
    by (simp add: syncManager_start_def start_def canRun_def)
  have released:
    "syncManager_stop (w\<lparr>manager := (manager w)\<lparr>isRunning := True\<rparr>, ticks := Suc (ticks w)\<rparr>)
       = w\<lparr>manager := (manager w)\<lparr>isRunning := False\<rparr>, ticks := Suc (ticks w)\<rparr>"
    by (simp add: syncManager_stop_def stop_def)
  show ?thesis
    using every_sync every_full refused released
    by (simp add: syncAppointments_def performFullSync_def)
qed

section \<open>Orphan events\<close>

text \<open>
  C8. An event id that is not a key of the reconciliation's map of local records is
  left alone by a reconciliation pass: on every path of \<^verbatim>\<open>syncAppointments\<close>, and
  whatever the store or the gateway answer, the pass issues no \<^verbatim>\<open>updateAppointment\<close>
  and no \<^verbatim>\<open>cancelAppointment\<close> for that id, and it imports nothing: the table holds
  the same rows (by key) as before. This holds for every such id, so in particular for
  every listed event that no record references.
\<close>

theorem orphan_event_left_alone:
  assumes orphan:
    "eventId \<notin> fst ` set (dbAppointmentMap (scheduled_with_event (appointments w)))"
  shows "filter (modifies_event eventId) (calls (snd (syncAppointments e w)))
           = filter (modifies_event eventId) (calls w)
         \<and> map appt_id (appointments (snd (syncAppointments e w))) = map appt_id (appointments w)"
proof (rule syncAppointments_paths [of e w])
  fix w1
  assume s: "syncManager_start e w = (False, w1)"
     and r: "syncAppointments e w = (Inr (), syncManager_stop w1)"
  show ?thesis
    using syncManager_start_frame [OF s] r by simp
next
  fix w1 w2
  assume s: "syncManager_start e w = (True, w1)" and d: "db_statement e w1 = (True, w2)"
     and r: "syncAppointments e w = (Inl StoreError, syncManager_stop w2)"
  show ?thesis
    using syncManager_start_frame [OF s] db_statement_frame [OF d] r by simp
next
  fix w1 w2 err w3
  assume s: "syncManager_start e w = (True, w1)" and d: "db_statement e w1 = (False, w2)"
     and g: "getUpcomingAppointments e 30 w2 = (Inl err, w3)"
     and r: "syncAppointments e w = (Inl err, syncManager_stop w3)"
  show ?thesis
    using syncManager_start_frame [OF s] db_statement_frame [OF d]
          getUpcomingAppointments_frame [OF g] r
    by (simp add: modifies_event_def)
next
  fix w1 w2 calendarEvents w3 q w4
  assume s: "syncManager_start e w = (True, w1)" and d: "db_statement e w1 = (False, w2)"
     and g: "getUpcomingAppointments e 30 w2 = (Inr calendarEvents, w3)"
     and f: "find_discrepancies e (dbAppointmentMap (scheduled_with_event (appointments w2)))
               (calendarEventMap calendarEvents) w3 = (q, w4)"
     and r: "syncAppointments e w = (Inr (), syncManager_stop (applySyncFixes e q w4))"
  note fr = find_discrepancies_result [OF f]
  have rows: "appointments w2 = appointments w"
    using syncManager_start_frame [OF s] db_statement_frame [OF d] by simp
  have log: "calls w4 = calls w @ [GetUpcomingAppointments 30]"
    using syncManager_start_frame [OF s] db_statement_frame [OF d]
          getUpcomingAppointments_frame [OF g] fr(1) by simp
  have rows4: "appointments w4 = appointments w"
    using rows getUpcomingAppointments_frame [OF g] fr(2) by simp
  have targets: "eventId \<notin> (ev_id \<circ> snd) ` set (toUpdateInCalendar q)"
  proof
    assume "eventId \<in> (ev_id \<circ> snd) ` set (toUpdateInCalendar q)"
    then obtain a cev where m: "(a, cev) \<in> set (mismatched e (calendarEventMap calendarEvents)
                  (dbAppointmentMap (scheduled_with_event (appointments w2))))"
      and i: "ev_id cev = eventId"
      using fr(9) by auto
    from mismatched_entry [OF m] obtain k
      where k: "(k, a) \<in> set (dbAppointmentMap (scheduled_with_event (appointments w2)))"
        and c: "map_of (calendarEventMap calendarEvents) k = Some cev" by blast
    from calendarEventMap_get_id [OF c] i have "k = eventId" by simp
    with k rows orphan show False by (metis fst_conv image_eqI)
  qed
  have "filter (modifies_event eventId) (calls (applySyncFixes e q w4))
          = filter (modifies_event eventId) (calls w4)"
    using fr(6-8) targets
    by (simp add: applySyncFixes_queued update_loop_calls_other recreate_loop_calls
                  modifies_event_def)
  moreover have "map appt_id (appointments (applySyncFixes e q w4)) = map appt_id (appointments w4)"
    using fr(6-8) by (simp add: applySyncFixes_queued update_loop_frame recreate_loop_frame)
  ultimately show ?thesis
    using r log rows4 by (simp add: modifies_event_def)
qed

theorem orphan_event_left_alone_witness:
  "stray_event \<in> set (gw_events march_env (length (calls march_world))) \<and>
   filter (modifies_event ''evt-9'') (calls (snd (syncAppointments march_env march_world))) = [] \<and>
   map appt_id (appointments (snd (syncAppointments march_env march_world))) = [7]"
proof -
  have orphan:
    "''evt-9'' \<notin> fst ` set (dbAppointmentMap (scheduled_with_event (appointments march_world)))"
    by (simp add: dbAppointmentMap_def scheduled_with_event_def march_world_def
                  march_appointment_def)
  have listed: "stray_event \<in> set (gw_events march_env (length (calls march_world)))"
    by (simp add: march_env_def)
  have before: "calls march_world = []" "map appt_id (appointments march_world) = [7]"
    by (simp_all add: march_world_def march_appointment_def)
  from orphan_event_left_alone [OF orphan, of march_env] listed before show ?thesis
    by simp
qed

section \<open>Evaluating the scenarios\<close>

lemmas engine_defs =
  syncAppointments_def performFullSync_def validateAppointmentData_def
  retryFailedAppointmentSyncs_def cleanupOldData_def retry_sync_def retry_eventDetails_def
  syncManager_start_def syncManager_stop_def start_def canRun_def stop_def minInterval_def
  new_manager_def Date_now_def db_statement_def gateway_def
  getUpcomingAppointments_def createAppointment_def createEvent_def updateAppointment_def
  cancelAppointment_def authenticate_def
  scheduled_with_event_def scheduled_without_event_def patients_by_phone_def
  set_google_event_id_def set_cancelled_def set_updated_at_def archive_old_def
  dbAppointmentMap_def calendarEventMap_def find_discrepancies_def check_appointment_def
  empty_queues_def applySyncFixes_def recreate_event_def update_event_def delete_event_def
  touch_record_def cancel_record_def
  appointment_payload_def patientName_or_def local_datetime_def
  diff_hours_def absFloor_div_def le_number_def isSame_def name_or_Patient_def minutes_or_30_def

lemmas sweep_defs =
  cleanDbDuplicates_def checkDbDuplicates_def duplicate_groups_def slot_records_def
  delete_ids_def slot_of_def is_active_def
  cleanCalendarDuplicates_def slot_key_def slot_deletions_def
  authenticate_def getUpcomingAppointments_def cancelAppointment_def gateway_def
  db_statement_def scheduled_with_event_def Let_def

lemmas booking_defs =
  saveAppointment_step_def saveAppointment_def existingAppointment_def insert_appointment_def
  next_rowid_def is_active_def db_statement_def

lemmas scenario_defs =
  march_env_def march_world_def march_appointment_def march_event_def stray_event_def
  drift_env_def drift_world_def recent_appointment_def older_appointment_def
  quiet_env_def blank_world_def booking_def slot_row_def rebooked_world_def
  nine_oclock_def triple_world_def gone_env_def confirmed_world_def new_manager_def

lemma confirmed_world_valid_ids:
  "scheduled_with_event (appointments (confirmed_world i)) = []"
  by (simp add: scheduled_with_event_def confirmed_world_def blank_world_def slot_row_def)

lemma confirmed_world_fields:
  "calls (confirmed_world i) = []" "statements (confirmed_world i) = 0"
  by (simp_all add: confirmed_world_def blank_world_def)

lemmas calendar_sweep_defs =
  cleanCalendarDuplicates_def slot_key_def slot_deletions_def
  authenticate_def getUpcomingAppointments_def cancelAppointment_def gateway_def
  db_statement_def Let_def quiet_env_def nine_oclock_def


section \<open>Time mismatch\<close>

lemma isSame_iff: "isSame x y = (x \<noteq> None \<and> x = y)"
  by (cases x; cases y) (simp_all add: isSame_def)

lemma db_statement_count:
  "db_statement e w = (r, w1) \<Longrightarrow> statements w1 = Suc (statements w)"
  by (auto simp: db_statement_def)

lemma recreate_event_count: "statements w \<le> statements (recreate_event e w a)"
  by (auto simp: recreate_event_def
           dest!: db_statement_count createAppointment_frame
           split: prod.splits bool.splits sum.splits)

lemma recreate_loop_count: "statements w \<le> statements (foldl (recreate_event e) w as)"
proof (induction as arbitrary: w)
  case Nil
  show ?case by simp
next
  case (Cons a as)
  from recreate_event_count [of w e a] Cons [of "recreate_event e w a"] show ?case
    by simp
qed

lemma update_event_count: "statements (update_event e w item) = Suc (statements w)"
  by (auto simp: update_event_def updateAppointment_def gateway_def db_statement_def Let_def
           split: prod.splits bool.splits)

lemma update_loop_calls_accepted:
  "\<forall>k. statements w \<le> k \<longrightarrow> \<not> db_rejects e k \<Longrightarrow>
     calls (foldl (update_event e) w items) = calls w @ map (update_call (patients w)) items"
proof (induction items arbitrary: w)
  case Nil
  show ?case by simp
next
  case (Cons item items)
  from Cons.prems have first: "\<not> db_rejects e (statements w)" by simp
  from Cons.prems have rest:
    "\<forall>k. statements (update_event e w item) \<le> k \<longrightarrow> \<not> db_rejects e k"
    by (simp add: update_event_count)
  from Cons.IH [OF rest] first show ?case
    by (simp add: update_event_calls update_event_frame)
qed

lemma mismatched_differs:
  "(a, cev) \<in> set (mismatched e cm dm) \<Longrightarrow>
     \<exists>k. (k, a) \<in> set dm \<and> map_of cm k = Some cev
         \<and> \<not> isSame (moment_tz e (local_datetime a)) (moment e (ev_start cev))"
  by (auto simp: mismatched_def split: option.splits if_splits)

text \<open>
  A counterexample to C6 as stated. The claim: in a reconciliation pass, a scheduled
  appointment whose event is listed and whose date and time are not the instant at
  which the event starts gets exactly one calendar update. The update loop of
  \<^verbatim>\<open>applySyncFixes\<close> looks the patient up in the store before it calls the gateway, inside
  the item's own \<^verbatim>\<open>try/catch\<close>; when the store rejects that lookup the item is logged
  and skipped. Below the pass runs (the gate is taken, the appointments are read, the
  calendar is listed), the appointment is at 10:00 and its event at 10:30, the store
  rejects the patients lookup, and no update is issued.
\<close>

theorem patient_lookup_rejected_counterexample:
  "\<not> isRunning (manager march_world) \<and>
   march_appointment \<in> set (appointments march_world) \<and>
   status march_appointment = Some ''scheduled'' \<and>
   google_event_id march_appointment = Some (ev_id march_event) \<and>
   march_event \<in> set (gw_events lookup_rejected_env (length (calls march_world))) \<and>
   moment_tz lookup_rejected_env
     (appointment_date march_appointment @ ''T'' @ appointment_time march_appointment @ '':00'')
     = Some 1740803400000 \<and>
   moment lookup_rejected_env (ev_start march_event) = Some 1740805200000 \<and>
   syncAppointments lookup_rejected_env march_world =
     (Inr (), march_world\<lparr>manager := \<lparr>isRunning = False, lastRun = 1740700000000\<rparr>,
                          ticks := 2, statements := 2,
                          calls := [GetUpcomingAppointments 30]\<rparr>) \<and>
   filter (modifies_event (ev_id march_event))
     (calls (snd (syncAppointments lookup_rejected_env march_world))) = []"
proof -
  have run: "syncAppointments lookup_rejected_env march_world =
     (Inr (), march_world\<lparr>manager := \<lparr>isRunning = False, lastRun = 1740700000000\<rparr>,
                          ticks := 2, statements := 2,
                          calls := [GetUpcomingAppointments 30]\<rparr>)"
    by (simp add: engine_defs lookup_rejected_env_def march_env_def march_world_def
                  march_appointment_def march_event_def stray_event_def)
  have facts: "\<not> isRunning (manager march_world)"
    "march_appointment \<in> set (appointments march_world)"
    "status march_appointment = Some ''scheduled''"
    "google_event_id march_appointment = Some (ev_id march_event)"
    "march_event \<in> set (gw_events lookup_rejected_env (length (calls march_world)))"
    by (simp_all add: march_world_def new_manager_def march_appointment_def march_event_def
                      lookup_rejected_env_def march_env_def)
  have instants: "moment_tz lookup_rejected_env
     (appointment_date march_appointment @ ''T'' @ appointment_time march_appointment @ '':00'')
     = Some 1740803400000"
    "moment lookup_rejected_env (ev_start march_event) = Some 1740805200000"
    by (simp_all add: lookup_rejected_env_def march_env_def march_appointment_def
                      march_event_def)
  show ?thesis
    using facts instants by (simp add: run modifies_event_def)
qed

text \<open>
  C6 (amended). Take a reconciliation pass that runs: the gate is free and due, the
  store answers the query for the appointments and the listing succeeds. Let \<open>a\<close> be a
  scheduled row whose non-empty event id is the id of a listed event \<open>ev\<close>, in a table
  whose keys are unique (\<^verbatim>\<open>id\<close> is the primary key, \<^verbatim>\<open>google_event_id\<close> is declared
  UNIQUE) and a listing whose event ids are unique. Then
  \<^item> the row is in the table afterwards exactly as before, in every column;
  \<^item> if the row's date and time, read in the configured timezone, are a valid moment
    and the very instant at which the event starts, the pass makes no call that
    updates or deletes the event;
  \<^item> otherwise, provided the store rejects none of the later statements of the pass,
    the pass invokes \<^verbatim>\<open>updateAppointment\<close> for the event exactly once, with the row's
    phone, date, time and duration (and the row's patient name when it has one), and
    makes no other call that updates or deletes the event.

  A call counts from the moment the engine invokes the gateway method, whether or not
  the method then throws.
\<close>

theorem time_mismatch_pushes_local_time:
  assumes idle: "\<not> isRunning (manager w)"
    and due: "\<not> clock e (ticks w) - lastRun (manager w) < minInterval"
    and store_read: "\<not> db_rejects e (statements w)"
    and listing_ok: "\<not> gw_throws e (length (calls w))"
    and listed: "ev \<in> set (gw_events e (length (calls w)))"
    and event_ids: "distinct (map ev_id (gw_events e (length (calls w))))"
    and row: "a \<in> set (appointments w)"
    and scheduled: "status a = Some ''scheduled''"
    and linked: "google_event_id a = Some (ev_id ev)" "ev_id ev \<noteq> []"
    and primary_key: "distinct (map appt_id (appointments w))"
    and unique_event_id: "distinct (map google_event_id (scheduled_with_event (appointments w)))"
  shows "filter (\<lambda>x. appt_id x = appt_id a) (appointments (snd (syncAppointments e w))) = [a]
     \<and> (moment_tz e (appointment_date a @ ''T'' @ appointment_time a @ '':00'') \<noteq> None
          \<and> moment_tz e (appointment_date a @ ''T'' @ appointment_time a @ '':00'')
              = moment e (ev_start ev)
        \<longrightarrow> filter (modifies_event (ev_id ev)) (calls (snd (syncAppointments e w)))
              = filter (modifies_event (ev_id ev)) (calls w))
     \<and> (\<not> (moment_tz e (appointment_date a @ ''T'' @ appointment_time a @ '':00'') \<noteq> None
             \<and> moment_tz e (appointment_date a @ ''T'' @ appointment_time a @ '':00'')
                 = moment e (ev_start ev))
          \<and> (\<forall>k. statements w < k \<longrightarrow> \<not> db_rejects e k)
        \<longrightarrow> (\<exists>n. filter (modifies_event (ev_id ev)) (calls (snd (syncAppointments e w)))
                  = filter (modifies_event (ev_id ev)) (calls w) @
                      [UpdateAppointment (ev_id ev)
                         \<lparr>patientName = n, patientPhone = patient_phone a,
                          date = appointment_date a, time = appointment_time a,
                          duration = duration_minutes a\<rparr>]
                \<and> (\<forall>m. patient_name a = Some m \<and> m \<noteq> [] \<longrightarrow> n = m)))"
proof (rule syncAppointments_paths [of e w])
  fix w1
  assume "syncManager_start e w = (False, w1)"
  with syncManager_start_ok [OF idle due] show ?thesis by simp
next
  fix w1 w2
  assume s: "syncManager_start e w = (True, w1)" and d: "db_statement e w1 = (True, w2)"
  from db_statement_frame [OF d] syncManager_start_frame [OF s]
  have "db_rejects e (statements w)" by simp
  with store_read show ?thesis by blast
next
  fix w1 w2 err w3
  assume s: "syncManager_start e w = (True, w1)" and d: "db_statement e w1 = (False, w2)"
     and g: "getUpcomingAppointments e 30 w2 = (Inl err, w3)"
  have "calls w2 = calls w"
    using syncManager_start_frame [OF s] db_statement_frame [OF d] by simp
  with getUpcomingAppointments_frame [OF g] listing_ok show ?thesis by simp
next
  fix w1 w2 calendarEvents w3 q w4
  assume s: "syncManager_start e w = (True, w1)" and d: "db_statement e w1 = (False, w2)"
     and g: "getUpcomingAppointments e 30 w2 = (Inr calendarEvents, w3)"
     and f: "find_discrepancies e (dbAppointmentMap (scheduled_with_event (appointments w2)))
               (calendarEventMap calendarEvents) w3 = (q, w4)"
     and r: "syncAppointments e w = (Inr (), syncManager_stop (applySyncFixes e q w4))"
  define dm where "dm = dbAppointmentMap (scheduled_with_event (appointments w))"
  define cm where "cm = calendarEventMap (gw_events e (length (calls w)))"
  define local where "local = moment_tz e (appointment_date a @ ''T'' @ appointment_time a @ '':00'')"
  define remote where "remote = moment e (ev_start ev)"
  define w5 where "w5 = foldl (recreate_event e) w4 (toCreateInCalendar q)"
  have same_iff: "isSame (moment_tz e (local_datetime a)) (moment e (ev_start ev))
                    = (local \<noteq> None \<and> local = remote)"
    by (simp add: isSame_iff local_datetime_def local_def remote_def)
  have w2: "appointments w2 = appointments w" "calls w2 = calls w" "patients w2 = patients w"
    "statements w2 = Suc (statements w)"
    using syncManager_start_frame [OF s] db_statement_frame [OF d] db_statement_count [OF d]
    by simp_all
  have evs: "calendarEvents = gw_events e (length (calls w))"
    using getUpcomingAppointments_frame [OF g] w2(2) listing_ok by simp
  have f': "find_discrepancies e dm cm w3 = (q, w4)"
    using f w2 evs by (simp add: dm_def cm_def)
  note fr = find_discrepancies_result [OF f']
  have w4: "calls w4 = calls w @ [GetUpcomingAppointments 30]" "appointments w4 = appointments w"
    "patients w4 = patients w" "statements w4 = Suc (statements w)"
    using getUpcomingAppointments_frame [OF g] w2 fr(1-3,5) by simp_all
  have in_dm: "(ev_id ev, a) \<in> set dm"
    unfolding dm_def
    using row scheduled linked unique_event_id
    by (intro dbAppointmentMap_member) (simp_all add: scheduled_with_event_def)
  have in_cm: "map_of cm (ev_id ev) = Some ev"
    unfolding cm_def using event_ids listed by (rule calendarEventMap_member)
  have cm_ids: "\<And>k' v. map_of cm k' = Some v \<Longrightarrow> ev_id v = k'"
    unfolding cm_def by (rule calendarEventMap_get_id)
  have keys: "distinct (map fst dm)"
    unfolding dm_def by (rule dbAppointmentMap_distinct)
  have not_recreated: "appt_id a \<notin> appt_id ` set (toCreateInCalendar q)"
  proof
    assume "appt_id a \<in> appt_id ` set (toCreateInCalendar q)"
    then obtain a' where a': "a' \<in> set (toCreateInCalendar q)" and same: "appt_id a' = appt_id a"
      by auto
    from a' fr(10) obtain k where k: "(k, a') \<in> set dm" and none: "map_of cm k = None"
      by auto
    from dbAppointmentMap_entry [OF k [unfolded dm_def]]
    have "a' \<in> set (appointments w)" and ka: "google_event_id a' = Some k"
      by (simp_all add: scheduled_with_event_def)
    with same row primary_key have "a' = a"
      by (metis distinct_map inj_onD)
    with ka linked none in_cm show False by simp
  qed
  have fixes_run: "applySyncFixes e q w4 = foldl (update_event e) w5 (toUpdateInCalendar q)"
    using fr(6-8) by (simp add: applySyncFixes_queued w5_def)
  have w5: "filter (modifies_event (ev_id ev)) (calls w5)
              = filter (modifies_event (ev_id ev)) (calls w)"
    "patients w5 = patients w" "statements w4 \<le> statements w5"
    unfolding w5_def
    using w4(1,3)
    by (simp_all add: recreate_loop_calls recreate_loop_frame recreate_loop_count
                      modifies_event_def)
  have unwritten:
    "filter (\<lambda>x. appt_id x = appt_id a) (appointments (snd (syncAppointments e w))) = [a]"
    using r not_recreated w4(2) filter_by_distinct_key [OF primary_key row]
    by (simp add: fixes_run w5_def update_loop_frame recreate_loop_other_row)
  have equal_case:
    "filter (modifies_event (ev_id ev)) (calls (snd (syncAppointments e w)))
       = filter (modifies_event (ev_id ev)) (calls w)"
    if equal: "local \<noteq> None \<and> local = remote"
  proof -
    have "ev_id ev \<notin> (ev_id \<circ> snd) ` set (toUpdateInCalendar q)"
    proof
      assume "ev_id ev \<in> (ev_id \<circ> snd) ` set (toUpdateInCalendar q)"
      then obtain a' cev where m: "(a', cev) \<in> set (mismatched e cm dm)"
        and i: "ev_id cev = ev_id ev"
        using fr(9) by auto
      from mismatched_differs [OF m] obtain k where k: "(k, a') \<in> set dm"
        and c: "map_of cm k = Some cev"
        and differs: "\<not> isSame (moment_tz e (local_datetime a')) (moment e (ev_start cev))"
        by blast
      from cm_ids [OF c] i have k_eq: "k = ev_id ev" by simp
      with c in_cm have cev_eq: "cev = ev" by simp
      from k k_eq in_dm keys have "a' = a"
        by (metis eq_key_imp_eq_value)
      with differs cev_eq
      have "\<not> isSame (moment_tz e (local_datetime a)) (moment e (ev_start ev))" by simp
      with same_iff equal show False by blast
    qed
    then have "filter (modifies_event (ev_id ev))
                 (calls (foldl (update_event e) w5 (toUpdateInCalendar q)))
               = filter (modifies_event (ev_id ev)) (calls w5)"
      by (rule update_loop_calls_other)
    with r w5(1) show ?thesis by (simp add: fixes_run)
  qed
  have differ_case:
    "filter (modifies_event (ev_id ev)) (calls (snd (syncAppointments e w)))
       = filter (modifies_event (ev_id ev)) (calls w) @
           [UpdateAppointment (ev_id ev)
              \<lparr>patientName = patientName_or a (patients_by_phone (patient_phone a) (patients w)),
               patientPhone = patient_phone a,
               date = appointment_date a, time = appointment_time a,
               duration = duration_minutes a\<rparr>]"
    if differ: "\<not> (local \<noteq> None \<and> local = remote)"
      and accepted: "\<forall>k. statements w < k \<longrightarrow> \<not> db_rejects e k"
  proof -
    from accepted w4(4) w5(3) have "\<forall>k. statements w5 \<le> k \<longrightarrow> \<not> db_rejects e k"
      by auto
    then have log: "calls (foldl (update_event e) w5 (toUpdateInCalendar q))
                 = calls w5 @ map (update_call (patients w)) (toUpdateInCalendar q)"
      using w5(2) update_loop_calls_accepted [of w5 e "toUpdateInCalendar q"] by simp
    have "filter (modifies_event (ev_id ev))
            (map (update_call (patients w)) (toUpdateInCalendar q))
          = (if isSame (moment_tz e (local_datetime a)) (moment e (ev_start ev)) then []
             else [update_call (patients w) (a, ev)])"
      unfolding fr(9) by (rule mismatched_updates_present [OF cm_ids in_cm keys in_dm])
    with differ same_iff have "filter (modifies_event (ev_id ev))
            (map (update_call (patients w)) (toUpdateInCalendar q))
          = [update_call (patients w) (a, ev)]" by simp
    with r log w5(1) show ?thesis
      by (simp add: fixes_run update_call_def appointment_payload_def)
  qed
  have named: "\<forall>m. patient_name a = Some m \<and> m \<noteq> [] \<longrightarrow>
      patientName_or a (patients_by_phone (patient_phone a) (patients w)) = m"
    by (simp add: patientName_or_def)
  from unwritten equal_case differ_case named show ?thesis
    unfolding local_def remote_def by blast
qed


theorem time_mismatch_witness:
  "filter (modifies_event ''evt-1'') (calls (snd (syncAppointments march_env march_world))) =
     [UpdateAppointment ''evt-1''
        \<lparr>patientName = ''Asha'', patientPhone = ''9876543210'',
         date = ''2025-03-01'', time = ''10:00'', duration = Some 30\<rparr>] \<and>
   filter (\<lambda>x. appt_id x = 7) (appointments (snd (syncAppointments march_env march_world)))
     = [march_appointment] \<and>
   filter (modifies_event ''evt-1'') (calls (snd (syncAppointments punctual_env march_world)))
     = [] \<and>
   filter (\<lambda>x. appt_id x = 7) (appointments (snd (syncAppointments punctual_env march_world)))
     = [march_appointment]"
proof -
  have idle: "\<not> isRunning (manager march_world)"
    by (simp add: march_world_def new_manager_def)
  have row: "march_appointment \<in> set (appointments march_world)"
    by (simp add: march_world_def)
  have scheduled: "status march_appointment = Some ''scheduled''"
    by (simp add: march_appointment_def)
  have primary_key: "distinct (map appt_id (appointments march_world))"
    by (simp add: march_world_def)
  have unique_event_id:
    "distinct (map google_event_id (scheduled_with_event (appointments march_world)))"
    by (simp add: march_world_def scheduled_with_event_def)
  have before: "calls march_world = []" "appt_id march_appointment = 7"
    "patient_name march_appointment = Some ''Asha''"
    "patient_phone march_appointment = ''9876543210''"
    "appointment_date march_appointment = ''2025-03-01''"
    "appointment_time march_appointment = ''10:00''"
    "duration_minutes march_appointment = Some 30"
    by (simp_all add: march_world_def march_appointment_def)

  have due: "\<not> clock march_env (ticks march_world) - lastRun (manager march_world) < minInterval"
    by (simp add: march_world_def march_env_def new_manager_def minInterval_def)
  have store_read: "\<not> db_rejects march_env (statements march_world)"
    by (simp add: march_env_def)
  have listing_ok: "\<not> gw_throws march_env (length (calls march_world))"
    by (simp add: march_env_def)
  have listed: "march_event \<in> set (gw_events march_env (length (calls march_world)))"
    by (simp add: march_env_def)
  have event_ids: "distinct (map ev_id (gw_events march_env (length (calls march_world))))"
    by (simp add: march_env_def march_event_def stray_event_def)
  have linked: "google_event_id march_appointment = Some (ev_id march_event)"
    "ev_id march_event \<noteq> []"
    by (simp_all add: march_appointment_def march_event_def)
  have differ: "\<not> (moment_tz march_env (''2025-03-01'' @ ''T'' @ ''10:00'' @ '':00'') \<noteq> None
        \<and> moment_tz march_env (''2025-03-01'' @ ''T'' @ ''10:00'' @ '':00'')
            = moment march_env (ev_start march_event))"
    by (simp add: march_env_def march_event_def)
  have accepted: "\<forall>k. statements march_world < k \<longrightarrow> \<not> db_rejects march_env k"
    by (simp add: march_env_def)
  have id1: "ev_id march_event = ''evt-1''"
    by (simp add: march_event_def)
  from time_mismatch_pushes_local_time
         [OF idle due store_read listing_ok listed event_ids row scheduled linked
             primary_key unique_event_id]
       differ accepted before id1
  have pushed:
    "filter (modifies_event ''evt-1'') (calls (snd (syncAppointments march_env march_world))) =
       [UpdateAppointment ''evt-1''
          \<lparr>patientName = ''Asha'', patientPhone = ''9876543210'',
           date = ''2025-03-01'', time = ''10:00'', duration = Some 30\<rparr>]"
    and kept:
    "filter (\<lambda>x. appt_id x = 7) (appointments (snd (syncAppointments march_env march_world)))
       = [march_appointment]"
    by auto

  have due': "\<not> clock punctual_env (ticks march_world) - lastRun (manager march_world) < minInterval"
    by (simp add: march_world_def punctual_env_def march_env_def new_manager_def minInterval_def)
  have store_read': "\<not> db_rejects punctual_env (statements march_world)"
    by (simp add: punctual_env_def march_env_def)
  have listing_ok': "\<not> gw_throws punctual_env (length (calls march_world))"
    by (simp add: punctual_env_def march_env_def)
  have listed': "punctual_event \<in> set (gw_events punctual_env (length (calls march_world)))"
    by (simp add: punctual_env_def)
  have event_ids': "distinct (map ev_id (gw_events punctual_env (length (calls march_world))))"
    by (simp add: punctual_env_def punctual_event_def stray_event_def)
  have linked': "google_event_id march_appointment = Some (ev_id punctual_event)"
    "ev_id punctual_event \<noteq> []"
    by (simp_all add: march_appointment_def punctual_event_def)
  have equal: "moment_tz punctual_env (''2025-03-01'' @ ''T'' @ ''10:00'' @ '':00'') \<noteq> None
        \<and> moment_tz punctual_env (''2025-03-01'' @ ''T'' @ ''10:00'' @ '':00'')
            = moment punctual_env (ev_start punctual_event)"
    by (simp add: punctual_env_def march_env_def punctual_event_def)
  have id2: "ev_id punctual_event = ''evt-1''"
    by (simp add: punctual_event_def)
  from time_mismatch_pushes_local_time
         [OF idle due' store_read' listing_ok' listed' event_ids' row scheduled linked'
             primary_key unique_event_id]
       equal before id2
  have silent:
    "filter (modifies_event ''evt-1'') (calls (snd (syncAppointments punctual_env march_world)))
       = []"
    and kept':
    "filter (\<lambda>x. appt_id x = 7) (appointments (snd (syncAppointments punctual_env march_world)))
       = [march_appointment]"
    by auto
  from pushed kept silent kept' show ?thesis by simp
qed

section \<open>Full sync and the reconciliation pass\<close>

text \<open>
  Inside \<^verbatim>\<open>performFullSync\<close> the nested \<^verbatim>\<open>syncAppointments\<close> always finds the gate taken.
  Whatever the state and the environment, a full sync adds no listing, no update and no
  delete to the gateway log.
\<close>

lemma createEvent_frame:
  "createEvent e d w = (r, w1) \<Longrightarrow>
     calls w1 = calls w @ [CreateEvent d] \<and> appointments w1 = appointments w
     \<and> patients w1 = patients w \<and> manager w1 = manager w \<and> statements w1 = statements w"
  by (auto simp: createEvent_def dest!: gateway_frame split: prod.splits option.splits if_splits)

lemma retry_sync_frame:
  "manager (retry_sync e w a) = manager w"
  "filter reconciles (calls (retry_sync e w a)) = filter reconciles (calls w)"
  by (auto simp: retry_sync_def reconciles_def
           dest!: db_statement_frame createEvent_frame
           split: prod.splits bool.splits sum.splits)

lemma retryFailedAppointmentSyncs_frame:
  "manager (retryFailedAppointmentSyncs e w) = manager w"
  "filter reconciles (calls (retryFailedAppointmentSyncs e w))
     = filter reconciles (calls w)"
proof -
  obtain r w1 where d: "db_statement e w = (r, w1)" by fastforce
  have loop: "manager (foldl (retry_sync e) w1 as) = manager w1"
    "filter reconciles (calls (foldl (retry_sync e) w1 as)) = filter reconciles (calls w1)" for as
    by (rule foldl_preserves, simp add: retry_sync_frame)+
  from db_statement_frame [OF d] loop d
  show "manager (retryFailedAppointmentSyncs e w) = manager w"
    and "filter reconciles (calls (retryFailedAppointmentSyncs e w))
           = filter reconciles (calls w)"
    by (auto simp: retryFailedAppointmentSyncs_def Let_def split: bool.splits)
qed

lemma cleanupOldData_frame:
  "manager (cleanupOldData e w) = manager w" "calls (cleanupOldData e w) = calls w"
  by (simp_all add: cleanupOldData_def Date_now_def db_statement_def
               split: prod.splits bool.splits)

lemma validateAppointmentData_frame:
  assumes "validateAppointmentData e w = (r, w1)"
  shows "manager w1 = manager w"
    and "filter reconciles (calls w1) = filter reconciles (calls w)"
proof -
  obtain r0 w0 where d: "db_statement e w = (r0, w0)" by fastforce
  define w2 where "w2 = foldl (recreate_event e) w0 (scheduled_without_event (appointments w0))"
  obtain r3 w3 where d3: "db_statement e w2 = (r3, w3)" by fastforce
  have loop: "manager w2 = manager w0" "filter reconciles (calls w2) = filter reconciles (calls w0)"
    unfolding w2_def
    by (simp_all add: recreate_loop_frame recreate_loop_calls reconciles_def)
  from assms d d3 have "w1 = w0 \<or> w1 = w3"
    by (auto simp: validateAppointmentData_def Let_def w2_def split: bool.splits)
  with db_statement_frame [OF d] db_statement_frame [OF d3] loop
  show "manager w1 = manager w"
    and "filter reconciles (calls w1) = filter reconciles (calls w)"
    by auto
qed

lemma syncAppointments_refused:
  "isRunning (manager w) \<Longrightarrow>
     syncAppointments e w = (Inr (), syncManager_stop (w\<lparr>ticks := Suc (ticks w)\<rparr>))"
  by (simp add: syncAppointments_def syncManager_start_def start_def canRun_def)

lemma syncManager_start_acquired:
  "syncManager_start e w = (True, w1) \<Longrightarrow> isRunning (manager w1)"
  by (auto simp: syncManager_start_def start_def split: if_splits)

lemma full_sync_never_reconciles:
  "filter reconciles (calls (snd (performFullSync e w))) = filter reconciles (calls w)"
proof -
  obtain ok w1 where s: "syncManager_start e w = (ok, w1)" by fastforce
  note s_frame = syncManager_start_frame [OF s]
  show ?thesis
  proof (cases ok)
    case False
    with s s_frame show ?thesis by (simp add: performFullSync_def)
  next
    case True
    with s have held: "isRunning (manager w1)" by (simp add: syncManager_start_acquired)
    obtain r w2 where v: "validateAppointmentData e w1 = (r, w2)" by fastforce
    note v_frame = validateAppointmentData_frame [OF v]
    show ?thesis
    proof (cases r)
      case (Inl err)
      with s True v v_frame s_frame show ?thesis by (simp add: performFullSync_def)
    next
      case (Inr u)
      from held v_frame(1) have "isRunning (manager w2)" by simp
      note nested = syncAppointments_refused [OF this, of e]
      with s True v Inr v_frame s_frame show ?thesis
        by (simp add: performFullSync_def cleanupOldData_frame
                      retryFailedAppointmentSyncs_frame)
    qed
  qed
qed

text \<open>
  C2 (fails on the code). The claim: a call of \<^verbatim>\<open>performFullSync\<close> that acquires the gate
  and can read both stores runs the compare-and-apply pass before it releases the gate.
  The code: \<^verbatim>\<open>performFullSync\<close> calls \<^verbatim>\<open>syncAppointments\<close> while it holds the gate, and
  \<^verbatim>\<open>syncAppointments\<close> asks the same coordinator for the gate again, is refused because
  \<^verbatim>\<open>isRunning\<close> is set, and returns at once (releasing the gate on its way out). On the
  store and calendar that disagree on one start time, with nothing failing, the full
  sync acquires the gate and returns normally with an empty gateway log: no listing, no
  update. \<^verbatim>\<open>syncAppointments\<close> called directly from the same state lists the calendar
  and pushes the local time.
\<close>

theorem full_sync_skips_reconciliation:
  "fst (syncManager_start march_env march_world) = True \<and>
   performFullSync march_env march_world =
     (Inr (), march_world\<lparr>manager := \<lparr>isRunning = False, lastRun = 1740700000000\<rparr>,
                          ticks := 5, statements := 5\<rparr>) \<and>
   calls (snd (performFullSync march_env march_world)) = [] \<and>
   calls (snd (syncAppointments march_env march_world)) =
     [GetUpcomingAppointments 30,
      UpdateAppointment ''evt-1''
        \<lparr>patientName = ''Asha'', patientPhone = ''9876543210'',
         date = ''2025-03-01'', time = ''10:00'', duration = Some 30\<rparr>]"
  by (simp add: engine_defs scenario_defs)


section \<open>The recreate window\<close>

text \<open>The test \<^verbatim>\<open>hoursSinceCreation <= 24\<close> holds up to, not including, 25 hours.\<close>

lemma recreate_window:
  "le_number (diff_hours now (Some created)) 24 = (now - created < 25 * 3600000)"
  by (auto simp: le_number_def diff_hours_def absFloor_div_def)

text \<open>
  C3 (fails on the code). The claim: an appointment whose event is missing is recreated
  if and only if it was created within the last 24 hours, so not when it was created
  24 hours 1 minute ago. The code compares moment's whole-hour difference, which is
  truncated, with \<^verbatim>\<open><= 24\<close>: 24 hours 1 minute is 24 whole hours, and the row is
  recreated. In the pass below both rows, created 23 h 59 min and 24 h 01 min before
  the pass, get a \<^verbatim>\<open>createAppointment\<close> call and the new event id written back.
\<close>

theorem recreated_after_24h01m:
  "diff_hours 1744257600000 (Some (1744257600000 - (24 * 60 + 1) * 60000)) = Some 24 \<and>
   diff_hours 1744257600000 (Some (1744257600000 - (23 * 60 + 59) * 60000)) = Some 23 \<and>
   syncAppointments drift_env drift_world =
     (Inr (),
      drift_world\<lparr>manager := \<lparr>isRunning = False, lastRun = 1744257600000\<rparr>, ticks := 4,
        appointments :=
          [recent_appointment\<lparr>google_event_id := Some ''evt-c'',
                              updated_at := ''2025-04-10 04:00:00''\<rparr>,
           older_appointment\<lparr>google_event_id := Some ''evt-d'',
                             updated_at := ''2025-04-10 04:00:00''\<rparr>],
        statements := 5,
        calls := [GetUpcomingAppointments 30,
                  CreateAppointment
                    \<lparr>patientName = ''Asha'', patientPhone = ''9876543210'',
                     date = ''2025-04-10'', time = ''09:00'', duration = Some 30\<rparr>,
                  CreateAppointment
                    \<lparr>patientName = ''Ravi'', patientPhone = ''9123456780'',
                     date = ''2025-04-11'', time = ''11:30'', duration = Some 30\<rparr>]\<rparr>)"
  by (simp add: engine_defs scenario_defs)


section \<open>Concurrent bookings\<close>

text \<open>
  A call that runs to its end with no other call in between keeps a slot that holds at
  most one active record that way.
\<close>

lemma existingAppointment_slot:
  "existingAppointment d rows =
     active_in_slot (new_patient_phone d, new_appointment_date d, new_appointment_time d) rows"
  by (auto simp: existingAppointment_def active_in_slot_def slot_of_def intro: filter_cong)

lemma sequential_booking_keeps_invariant:
  assumes "length (active_in_slot k (appointments w)) \<le> 1"
  shows "length (active_in_slot k (appointments (snd (saveAppointment e d w)))) \<le> 1"
proof (cases "db_rejects e (statements w)")
  case True
  with assms show ?thesis
    by (simp add: saveAppointment_def saveAppointment_step_def db_statement_def)
next
  case False
  note first = this
  show ?thesis
  proof (cases "existingAppointment d (appointments w)")
    case (Cons a as)
    with first assms show ?thesis
      by (simp add: saveAppointment_def saveAppointment_step_def db_statement_def)
  next
    case Nil
    show ?thesis
    proof (cases "db_rejects e (Suc (statements w))")
      case True
      with first Nil assms show ?thesis
        by (simp add: saveAppointment_def saveAppointment_step_def db_statement_def)
    next
      case False
      from Nil have none:
        "active_in_slot (new_patient_phone d, new_appointment_date d, new_appointment_time d)
           (appointments w) = []"
        by (simp add: existingAppointment_slot)
      from first False Nil assms none show ?thesis
        by (auto simp: saveAppointment_def saveAppointment_step_def db_statement_def
                       insert_appointment_def Let_def active_in_slot_def slot_of_def)
    qed
  qed
qed

text \<open>
  C1 (fails on the code). The claim: after any booking attempts through
  \<^verbatim>\<open>saveAppointment\<close>, concurrent ones included, a slot holds at most one active record.
  The code checks and inserts in two separately awaited statements and the schema has
  no unique index on the slot. Two calls for the same slot on an empty table, resumed
  in the order check, check, insert, insert, both find no existing record and both
  insert: the table ends with two scheduled rows for the slot and both calls report
  \<^verbatim>\<open>existed: false\<close>.
\<close>

theorem concurrent_bookings_both_insert:
  "run_schedule (quiet_env []) [0, 1, 0, 1] [Checking booking, Checking booking] blank_world =
     ([Returned 1 False, Returned 2 False],
      blank_world\<lparr>appointments :=
          [slot_row 1 ''scheduled'' ''2025-04-10 04:00:00'',
           slot_row 2 ''scheduled'' ''2025-04-10 04:00:00''],
        sequence := 2, statements := 4\<rparr>) \<and>
   length (filter is_active
     (appointments (snd (run_schedule (quiet_env []) [0, 1, 0, 1]
                      [Checking booking, Checking booking] blank_world)))) = 2"
  by (simp add: booking_defs scenario_defs)


section \<open>The store sweep\<close>

text \<open>
  C4 (fails on the code). The claim: for a slot with more than one active record the
  store sweep keeps the earliest-created active record, deletes the other members of
  the group and nothing outside it. The code finds the groups among active records but
  then selects the records of a slot without a condition on the status, keeps the
  first by creation time and deletes the rest. With a cancelled record created before
  two scheduled ones in the same slot, the sweep deletes both scheduled records and
  keeps the cancelled one.
\<close>

theorem store_sweep_keeps_cancelled_record:
  "duplicate_groups (appointments rebooked_world)
     = [((''9876543210'', ''2025-04-10'', ''09:00''), 2)] \<and>
   cleanDbDuplicates (quiet_env []) rebooked_world =
     (Inr 2, rebooked_world\<lparr>appointments := [slot_row 1 ''cancelled'' ''2025-04-01 08:00:00''],
                            statements := 3\<rparr>)"
  by (simp add: sweep_defs scenario_defs)


section \<open>The calendar sweep\<close>

text \<open>A delete that throws ends the loop: the remaining ids are never tried.\<close>

lemma first_failed_delete_ends_sweep:
  "gw_throws e (length (calls w)) \<Longrightarrow>
     cancel_each e (eventId # ids) n w =
       (Inl CalendarError, w\<lparr>calls := calls w @ [CancelAppointment eventId]\<rparr>)"
  by (simp add: cancelAppointment_def gateway_def)

text \<open>
  C5 (fails on the code). The claim: in the calendar sweep a delete that fails because
  the event no longer exists is not an error and does not keep the remaining events
  from being processed. The code awaits each \<^verbatim>\<open>cancelAppointment\<close> with no handler of
  its own, and \<^verbatim>\<open>cancelAppointment\<close> rethrows every failure: the first failing delete
  leaves the loops for the outer handler, which returns 0. With three events in one
  slot of which only the third is referenced by a scheduled record, and a provider
  that refuses the delete of the first, the second is never deleted and the result is
  0; when no delete fails, the first two are deleted and the result is 2.
\<close>

theorem failed_delete_ends_calendar_sweep:
  "cleanCalendarDuplicates gone_env triple_world =
     (0, triple_world\<lparr>statements := 1,
           calls := [Authenticate, GetUpcomingAppointments 30, CancelAppointment ''evt-1'']\<rparr>) \<and>
   cleanCalendarDuplicates
       (quiet_env [nine_oclock ''evt-1'', nine_oclock ''evt-2'', nine_oclock ''evt-3''])
       triple_world =
     (2, triple_world\<lparr>statements := 1,
           calls := [Authenticate, GetUpcomingAppointments 30, CancelAppointment ''evt-1'',
                     CancelAppointment ''evt-2'']\<rparr>)"
  by (simp add: sweep_defs scenario_defs)


subsection \<open>The calendar sweep\<close>

lemma map_of_slot_push:
  "map_of (slot_push k ev m) k' =
     (if k' = k then Some ((case map_of m k of None \<Rightarrow> [] | Some ys \<Rightarrow> ys) @ [ev])
      else map_of m k')"
  by (induction k ev m rule: slot_push.induct) auto

lemma group_timeSlots_lookup:
  "group_timeSlots evs m = Inr slots \<Longrightarrow>
     map_of slots k =
       (case map_of m k of
          None \<Rightarrow> if filter (same_slot k) evs = [] then None
                  else Some (filter (same_slot k) evs)
        | Some ys \<Rightarrow> Some (ys @ filter (same_slot k) evs))"
proof (induction evs arbitrary: m)
  case Nil
  then show ?case by (simp split: option.splits)
next
  case (Cons ev evs)
  from Cons.prems obtain k' where key: "slot_key (ev_start ev) = Inr k'"
    and rest: "group_timeSlots evs (slot_push k' ev m) = Inr slots"
    by (auto split: sum.splits)
  from Cons.IH [OF rest] key show ?case
    by (auto simp: map_of_slot_push same_slot_def split: option.splits)
qed

lemma group_timeSlots_total:
  "\<forall>ev \<in> set evs. slot_key (ev_start ev) \<noteq> Inl TypeError \<Longrightarrow>
     \<exists>slots. group_timeSlots evs m = Inr slots"
proof (induction evs arbitrary: m)
  case Nil
  then show ?case by simp
next
  case (Cons ev evs)
  then obtain k where "slot_key (ev_start ev) = Inr k"
    by (cases "slot_key (ev_start ev)") (auto simp: slot_key_def split: list.splits)
  with Cons show ?case by simp
qed

lemma cancel_each_all:
  "\<forall>k. \<not> gw_throws e k \<Longrightarrow>
     cancel_each e ids n w =
       (Inr (n + length ids), w\<lparr>calls := calls w @ map CancelAppointment ids\<rparr>)"
  by (induction ids arbitrary: n w) (simp_all add: cancelAppointment_def gateway_def)

lemma clean_slots_all:
  "\<forall>k. \<not> gw_throws e k \<Longrightarrow>
     clean_slots e v slots n w =
       (Inr (n + length (concat (map (\<lambda>entry. slot_deletions v (snd entry)) slots))),
        w\<lparr>calls := calls w @
             map CancelAppointment (concat (map (\<lambda>entry. slot_deletions v (snd entry)) slots))\<rparr>)"
  by (induction slots arbitrary: n w) (simp_all add: cancel_each_all)

lemma slot_deletions_invalid:
  assumes many: "length slotEvents > 1"
    and member: "ev \<in> set slotEvents"
    and invalid: "Some (ev_id ev) \<notin> set v"
    and reason: "(\<exists>x \<in> set slotEvents. Some (ev_id x) \<in> set v) \<or> ev \<in> set (tl slotEvents)"
  shows "ev_id ev \<in> set (slot_deletions v slotEvents)"
proof (cases "filter (\<lambda>x. Some (ev_id x) \<in> set v) slotEvents = []")
  case True
  then have "\<not> (\<exists>x \<in> set slotEvents. Some (ev_id x) \<in> set v)"
    by (simp add: filter_empty_conv)
  with reason have "ev \<in> set (tl slotEvents)" by blast
  with many True show ?thesis
    by (simp add: slot_deletions_def Let_def)
next
  case False
  with many member invalid show ?thesis
    by (auto simp: slot_deletions_def Let_def)
qed



text \<open>
  A counterexample to C10 as stated. The claim: the booking path counts \<^verbatim>\<open>scheduled\<close>, \<^verbatim>\<open>confirmed\<close> and
  \<^verbatim>\<open>pending\<close> as active, the calendar sweep takes its valid event ids only from
  \<^verbatim>\<open>scheduled\<close> records, and therefore in a slot with more than one event an event
  referenced by a confirmed or pending record is classified invalid and deleted. The
  classification holds; the deletion does not hold in every slot. When no event of the
  slot is valid the sweep keeps the first event of the slot, and that may be the one
  the confirmed record references: below, the sweep deletes the other event and keeps
  it.
\<close>

theorem confirmed_event_kept_counterexample:
  "nine_oclock ''evt-1'' \<in> set (gw_events (quiet_env [nine_oclock ''evt-1'', nine_oclock ''evt-2'']) 1) \<and>
   length (filter (same_slot ''2025-04-10_09:00'')
             (gw_events (quiet_env [nine_oclock ''evt-1'', nine_oclock ''evt-2'']) 1)) = 2 \<and>
   map status (filter (\<lambda>a. google_event_id a = Some ''evt-1'')
                 (appointments (confirmed_world ''evt-1''))) = [Some ''confirmed''] \<and>
   Some ''evt-1'' \<notin> set (map google_event_id
                            (scheduled_with_event (appointments (confirmed_world ''evt-1'')))) \<and>
   cleanCalendarDuplicates (quiet_env [nine_oclock ''evt-1'', nine_oclock ''evt-2''])
       (confirmed_world ''evt-1'') =
     (1, (confirmed_world ''evt-1'')\<lparr>statements := 1,
           calls := [Authenticate, GetUpcomingAppointments 30, CancelAppointment ''evt-2'']\<rparr>) \<and>
   CancelAppointment ''evt-1'' \<notin> set (calls (snd (cleanCalendarDuplicates
       (quiet_env [nine_oclock ''evt-1'', nine_oclock ''evt-2'']) (confirmed_world ''evt-1''))))"
proof -
  have sweep: "cleanCalendarDuplicates (quiet_env [nine_oclock ''evt-1'', nine_oclock ''evt-2''])
       (confirmed_world ''evt-1'') =
     (1, (confirmed_world ''evt-1'')\<lparr>statements := 1,
           calls := [Authenticate, GetUpcomingAppointments 30, CancelAppointment ''evt-2'']\<rparr>)"
    by (simp add: calendar_sweep_defs confirmed_world_valid_ids confirmed_world_fields)
  have slot: "length (filter (same_slot ''2025-04-10_09:00'')
             (gw_events (quiet_env [nine_oclock ''evt-1'', nine_oclock ''evt-2'']) 1)) = 2"
    by (simp add: same_slot_def slot_key_def quiet_env_def nine_oclock_def)
  have reference: "map status (filter (\<lambda>a. google_event_id a = Some ''evt-1'')
                 (appointments (confirmed_world ''evt-1''))) = [Some ''confirmed'']"
    by (simp add: confirmed_world_def blank_world_def slot_row_def)
  show ?thesis
    using sweep slot reference
    by (simp add: confirmed_world_valid_ids quiet_env_def)
qed


text \<open>
  C10 (amended). The booking path's duplicate check counts \<^verbatim>\<open>scheduled\<close>,
  \<^verbatim>\<open>confirmed\<close> and \<^verbatim>\<open>pending\<close> records; the calendar sweep takes its valid event ids
  from \<^verbatim>\<open>scheduled\<close> records only. So in a sweep in which no call fails and every listed start
  holds a time, an event referenced by a confirmed or pending record (event ids being
  unique among the records) is not among the valid ids, and it is deleted when its
  slot holds more than one event and either the slot holds a valid event or the event
  is not the first of its slot in listing order.
\<close>

theorem unreferenced_by_scheduled_is_deleted:
  assumes gateway_ok: "\<forall>k. \<not> gw_throws e k"
    and store_ok: "\<not> db_rejects e (statements w)"
    and parsed: "\<forall>x \<in> set (gw_events e (Suc (length (calls w)))). slot_key (ev_start x) \<noteq> Inl TypeError"
    and listed: "ev \<in> set (gw_events e (Suc (length (calls w))))"
    and key: "slot_key (ev_start ev) = Inr k"
    and many: "length (filter (same_slot k) (gw_events e (Suc (length (calls w))))) > 1"
    and row: "r \<in> set (appointments w)"
    and active: "status r = Some ''confirmed'' \<or> status r = Some ''pending''"
    and linked: "google_event_id r = Some (ev_id ev)"
    and unique_event_id:
      "distinct (map google_event_id (filter (\<lambda>a. google_event_id a \<noteq> None) (appointments w)))"
    and reason:
      "(\<exists>x \<in> set (filter (same_slot k) (gw_events e (Suc (length (calls w))))).
          Some (ev_id x) \<in> set (map google_event_id (scheduled_with_event (appointments w))))
       \<or> ev \<in> set (tl (filter (same_slot k) (gw_events e (Suc (length (calls w))))))"
  shows "Some (ev_id ev) \<notin> set (map google_event_id (scheduled_with_event (appointments w)))
         \<and> CancelAppointment (ev_id ev) \<in> set (calls (snd (cleanCalendarDuplicates e w)))"
proof -
  define events where "events = gw_events e (Suc (length (calls w)))"
  define v where "v = map google_event_id (scheduled_with_event (appointments w))"
  define slotEvents where "slotEvents = filter (same_slot k) events"
  have invalid: "Some (ev_id ev) \<notin> set v"
  proof
    assume "Some (ev_id ev) \<in> set v"
    then obtain a where a: "a \<in> set (appointments w)" "status a = Some ''scheduled''"
      "google_event_id a = Some (ev_id ev)"
      by (auto simp: v_def scheduled_with_event_def)
    from a row linked have "a \<in> set (filter (\<lambda>a. google_event_id a \<noteq> None) (appointments w))"
      and "r \<in> set (filter (\<lambda>a. google_event_id a \<noteq> None) (appointments w))" by simp_all
    with unique_event_id a(3) linked have "a = r"
      by (metis distinct_map inj_onD)
    with a(2) active show False by auto
  qed
  from group_timeSlots_total [of events "[]"] parsed obtain slots
    where slots: "group_timeSlots events [] = Inr slots"
    by (auto simp: events_def)
  have member: "ev \<in> set slotEvents"
    using listed key by (simp add: slotEvents_def events_def same_slot_def)
  then have "slotEvents \<noteq> []" by auto
  with group_timeSlots_lookup [OF slots, of k] have "map_of slots k = Some slotEvents"
    by (simp add: slotEvents_def)
  then have entry: "(k, slotEvents) \<in> set slots" by (rule map_of_SomeD)
  have "ev_id ev \<in> set (slot_deletions v slotEvents)"
    using many member invalid reason
    by (intro slot_deletions_invalid) (simp_all add: slotEvents_def events_def v_def)
  with entry have queued:
    "ev_id ev \<in> set (concat (map (\<lambda>entry. slot_deletions v (snd entry)) slots))"
    by force
  have run: "cleanCalendarDuplicates e w =
     (length (concat (map (\<lambda>entry. slot_deletions v (snd entry)) slots)),
      w\<lparr>statements := Suc (statements w),
        calls := calls w @ [Authenticate, GetUpcomingAppointments 30] @
          map CancelAppointment (concat (map (\<lambda>entry. slot_deletions v (snd entry)) slots))\<rparr>)"
    using gateway_ok store_ok slots
    by (simp add: cleanCalendarDuplicates_def authenticate_def gateway_def db_statement_def
                  getUpcomingAppointments_def clean_slots_all events_def v_def Let_def)
  from queued invalid show ?thesis
    by (simp add: run v_def)
qed

theorem unreferenced_by_scheduled_is_deleted_witness:
  "Some ''evt-2'' \<notin> set (map google_event_id
                           (scheduled_with_event (appointments (confirmed_world ''evt-2'')))) \<and>
   CancelAppointment ''evt-2'' \<in> set (calls (snd (cleanCalendarDuplicates
       (quiet_env [nine_oclock ''evt-1'', nine_oclock ''evt-2'']) (confirmed_world ''evt-2''))))"
proof -
  define e where "e = quiet_env [nine_oclock ''evt-1'', nine_oclock ''evt-2'']"
  define w where "w = confirmed_world ''evt-2''"
  define r where "r = (slot_row 1 ''confirmed'' ''2025-04-01 08:00:00'')\<lparr>google_event_id := Some ''evt-2''\<rparr>"
  have listing: "gw_events e (Suc (length (calls w))) = [nine_oclock ''evt-1'', nine_oclock ''evt-2'']"
    by (simp add: e_def quiet_env_def)
  have gateway_ok: "\<forall>k. \<not> gw_throws e k"
    by (simp add: e_def quiet_env_def)
  have store_ok: "\<not> db_rejects e (statements w)"
    by (simp add: e_def quiet_env_def)
  have parsed: "\<forall>x \<in> set (gw_events e (Suc (length (calls w)))). slot_key (ev_start x) \<noteq> Inl TypeError"
    by (simp add: listing slot_key_def nine_oclock_def)
  have listed: "nine_oclock ''evt-2'' \<in> set (gw_events e (Suc (length (calls w))))"
    by (simp add: listing)
  have key: "slot_key (ev_start (nine_oclock ''evt-2'')) = Inr ''2025-04-10_09:00''"
    by (simp add: slot_key_def nine_oclock_def)
  have many: "length (filter (same_slot ''2025-04-10_09:00'') (gw_events e (Suc (length (calls w))))) > 1"
    by (simp add: listing same_slot_def slot_key_def nine_oclock_def)
  have row: "r \<in> set (appointments w)"
    by (simp add: r_def w_def confirmed_world_def blank_world_def)
  have active: "status r = Some ''confirmed'' \<or> status r = Some ''pending''"
    by (simp add: r_def slot_row_def)
  have linked: "google_event_id r = Some (ev_id (nine_oclock ''evt-2''))"
    by (simp add: r_def nine_oclock_def)
  have unique_event_id:
    "distinct (map google_event_id (filter (\<lambda>a. google_event_id a \<noteq> None) (appointments w)))"
    by (simp add: w_def confirmed_world_def blank_world_def)
  have reason:
    "(\<exists>x \<in> set (filter (same_slot ''2025-04-10_09:00'') (gw_events e (Suc (length (calls w))))).
        Some (ev_id x) \<in> set (map google_event_id (scheduled_with_event (appointments w))))
     \<or> nine_oclock ''evt-2''
         \<in> set (tl (filter (same_slot ''2025-04-10_09:00'') (gw_events e (Suc (length (calls w))))))"
    by (simp add: listing same_slot_def slot_key_def nine_oclock_def)
  from unreferenced_by_scheduled_is_deleted
         [OF gateway_ok store_ok parsed listed key many row active linked unique_event_id reason]
  show ?thesis
    by (simp add: e_def w_def nine_oclock_def)
qed

end
